theory Spec2Isabelle
  imports Main
begin

section \<open>Values and objects of the embedded program\<close>

text \<open>
  The program is \<^verbatim>\<open>src/lite-element.ts\<close>. Objects are identified by natural numbers:
  a host (a \<^verbatim>\<open>LitElement\<close>), a DOM element and a controller instance each have a
  reference, and two references denote the same object exactly when they are equal.

  A class is described by what the program can observe of it: the function-valued own
  properties of its prototype other than \<^verbatim>\<open>constructor\<close> (its methods, in definition
  order) and the keys of its static \<^verbatim>\<open>properties\<close> object in \<^verbatim>\<open>for ... in\<close> order
  (\<open>None\<close> when the class declares no such static). A prototype chain is a list of
  classes, most derived first; \<^verbatim>\<open>LiteElement\<close> itself ends every chain and is the
  empty list.
\<close>

text \<open>
  What the embedding takes from outside the repository, and how:
  \<^item> the host framework: \<^verbatim>\<open>requestUpdate\<close> is counted, \<^verbatim>\<open>addController\<close> and
    \<^verbatim>\<open>render(result, element)\<close> are recorded, and what the framework does on its own
    (scheduling, committing, calling the hooks) is not part of the program;
  \<^item> the concrete controller classes: their constructors and \<^verbatim>\<open>render\<close> methods are
    parameters, which may throw; \<^verbatim>\<open>render\<close> is a function of the controller's state,
    as the contract of the method requires;
  \<^item> the DOM: a query result is a list of elements.

  The three declared fields \<^verbatim>\<open>host\<close>, \<^verbatim>\<open>element\<close> and
  \<^verbatim>\<open>reactivePropertiesInitialized\<close> are fields of the record below and every other
  own property is an entry of \<open>own\<close>; no class is taken to declare a method or a
  reactive field under one of these three names. An operation that throws returns the
  exception alone: the state it had reached is not described.
\<close>

datatype jsclass = JsClass (methods: "string list") (properties: "string list option")

text \<open>
  Values: the primitives, a method (an unbound function, named), a class constructor,
  a bound function \<^verbatim>\<open>f.bind(obj)\<close> and a \<^verbatim>\<open>ReactiveProperty\<close> object with its
  fields \<^verbatim>\<open>host\<close> and \<^verbatim>\<open>value\<close>.
\<close>

datatype jsval =
    Undefined
  | Null
  | JBool bool
  | JNum int
  | JStr string
  | Method string
  | Ctor "jsclass list"
  | Bound jsval nat
  | Obj reactive_property
and reactive_property = ReactiveProperty nat jsval

text \<open>\<^verbatim>\<open>host.requestUpdate()\<close>: the requests issued so far are counted per host.\<close>

definition requestUpdate :: "nat \<Rightarrow> (nat \<Rightarrow> nat) \<Rightarrow> (nat \<Rightarrow> nat)" where
  "requestUpdate h u = u(h := Suc (u h))"

fun ReactiveProperty_get :: "reactive_property \<Rightarrow> jsval" where
  "ReactiveProperty_get (ReactiveProperty h v) = v"

fun ReactiveProperty_set ::
  "jsval \<Rightarrow> reactive_property \<Rightarrow> (nat \<Rightarrow> nat) \<Rightarrow> reactive_property \<times> (nat \<Rightarrow> nat)" where
  "ReactiveProperty_set newValue (ReactiveProperty h v) u =
     (ReactiveProperty h newValue, requestUpdate h u)"

text \<open>
  An own property of a controller is a data property or the accessor pair that
  \<^verbatim>\<open>reactive\<close> installs; the pair's closure holds \<^verbatim>\<open>internalKey\<close> and
  \<^verbatim>\<open>originalValue\<close>.
\<close>

datatype property = Data jsval | Accessor string jsval

record controller =
  host :: nat
  element :: nat
  reactivePropertiesInitialized :: bool
  own :: "string \<rightharpoonup> property"
  proto :: "jsclass list"
  ref :: nat

datatype error = TypeError | NestedAccessor | Thrown string

text \<open>
  Two outcomes end an operation early. \<open>TypeError\<close> is the exception JavaScript raises
  when a member of \<^verbatim>\<open>null\<close> or \<^verbatim>\<open>undefined\<close> is read or a non-function is called.
  \<open>NestedAccessor\<close> marks the one situation this embedding does not follow: the internal
  key of a reactive field is itself an accessor property, so that the source re-enters
  the accessors. \<open>Thrown\<close> is an exception raised by code outside the repository (the
  constructor or the \<^verbatim>\<open>render\<close> method of a concrete controller class). Every result
  \<open>Inr\<close> is a run of the source that completed.
\<close>

section \<open>Property lookup\<close>

definition LiteElement_methods :: "string list" where
  "LiteElement_methods = [''hostConnected'', ''hostUpdate'', ''initReactiveProperties'', ''update'']"

text \<open>
  Lookup of a key along the prototype chain. Every prototype has its own
  \<^verbatim>\<open>constructor\<close>; \<^verbatim>\<open>render\<close> is abstract in \<^verbatim>\<open>LiteElement\<close> and so is no
  property of its prototype. The built-ins of \<^verbatim>\<open>Object.prototype\<close> are left out.
\<close>

fun proto_get :: "jsclass list \<Rightarrow> string \<Rightarrow> jsval" where
  "proto_get [] k =
     (if k = ''constructor'' then Ctor []
      else if k \<in> set LiteElement_methods then Method k
      else Undefined)"
| "proto_get (c # cs) k =
     (if k = ''constructor'' then Ctor (c # cs)
      else if k \<in> set (methods c) then Method k
      else proto_get cs k)"

text \<open>\<^verbatim>\<open>this[internalKey]\<close>, read inside an accessor.\<close>

definition raw :: "controller \<Rightarrow> string \<Rightarrow> error + jsval" where
  "raw this k =
     (case own this k of
        None \<Rightarrow> Inr (proto_get (proto this) k)
      | Some (Data v) \<Rightarrow> Inr v
      | Some (Accessor ik ov) \<Rightarrow> Inl NestedAccessor)"

text \<open>Assignment to a key that is no accessor: an own data property is created or overwritten.\<close>

definition put :: "controller \<Rightarrow> string \<Rightarrow> jsval \<Rightarrow> controller" where
  "put this k v = this\<lparr>own := (own this)(k \<mapsto> Data v)\<rparr>"

section \<open>The accessors installed by \<^verbatim>\<open>reactive\<close>\<close>

text \<open>
  \<^verbatim>\<open>
  const getter = function (this: any) {
      if (this[internalKey] === undefined) {
          this[internalKey] = new ReactiveProperty(this.host, originalValue);
      }
      return this[internalKey]?.get();
  };
  \<close>
  The result is the value read and the controller, whose slot may have been created.
\<close>

definition getter :: "string \<Rightarrow> jsval \<Rightarrow> controller \<Rightarrow> error + jsval \<times> controller" where
  "getter internalKey originalValue this =
     (case raw this internalKey of
        Inl e \<Rightarrow> Inl e
      | Inr cur \<Rightarrow>
          (let this' = (if cur = Undefined
                        then put this internalKey (Obj (ReactiveProperty (host this) originalValue))
                        else this)
           in case raw this' internalKey of
                Inl e \<Rightarrow> Inl e
              | Inr Undefined \<Rightarrow> Inr (Undefined, this')
              | Inr Null \<Rightarrow> Inr (Undefined, this')
              | Inr (Obj p) \<Rightarrow> Inr (ReactiveProperty_get p, this')
              | Inr _ \<Rightarrow> Inl TypeError))"

text \<open>
  \<^verbatim>\<open>
  const setter = function (this: any, value: any) {
      if (this[internalKey] === undefined) {
          this[internalKey] = new ReactiveProperty(this.host, value);
      } else {
          this[internalKey].set(value);
      }
  };
  \<close>
  The counters of re-render requests are passed through.
\<close>

definition setter ::
  "string \<Rightarrow> jsval \<Rightarrow> controller \<Rightarrow> (nat \<Rightarrow> nat) \<Rightarrow> error + controller \<times> (nat \<Rightarrow> nat)" where
  "setter internalKey v this u =
     (case raw this internalKey of
        Inl e \<Rightarrow> Inl e
      | Inr Undefined \<Rightarrow> Inr (put this internalKey (Obj (ReactiveProperty (host this) v)), u)
      | Inr (Obj p) \<Rightarrow>
          (case ReactiveProperty_set v p u of
             (p', u') \<Rightarrow> Inr (put this internalKey (Obj p'), u'))
      | Inr _ \<Rightarrow> Inl TypeError)"

text \<open>Reading and writing a property of a controller by its key.\<close>

definition js_get :: "controller \<Rightarrow> string \<Rightarrow> error + jsval \<times> controller" where
  "js_get this k =
     (case own this k of
        Some (Accessor ik ov) \<Rightarrow> getter ik ov this
      | Some (Data v) \<Rightarrow> Inr (v, this)
      | None \<Rightarrow> Inr (proto_get (proto this) k, this))"

definition js_set ::
  "controller \<Rightarrow> string \<Rightarrow> jsval \<Rightarrow> (nat \<Rightarrow> nat) \<Rightarrow> error + controller \<times> (nat \<Rightarrow> nat)" where
  "js_set this k v u =
     (case own this k of
        Some (Accessor ik ov) \<Rightarrow> setter ik v this u
      | _ \<Rightarrow> Inr (put this k v, u))"

text \<open>
  \<^verbatim>\<open>reactive(target, propertyKey)\<close>: the current value is read, then the property is
  replaced by the accessor pair.
\<close>

definition internalKey_of :: "string \<Rightarrow> string" where
  "internalKey_of propertyKey = ''__'' @ propertyKey"

definition reactive :: "controller \<Rightarrow> string \<Rightarrow> error + controller" where
  "reactive target propertyKey =
     (let internalKey = internalKey_of propertyKey in
      case js_get target propertyKey of
        Inl e \<Rightarrow> Inl e
      | Inr (originalValue, target') \<Rightarrow>
          Inr (target'\<lparr>own := (own target')(propertyKey \<mapsto> Accessor internalKey originalValue)\<rparr>))"

section \<open>Installation of the reactive fields\<close>

text \<open>
  \<^verbatim>\<open>K.properties\<close> for a class \<open>K\<close>: statics are inherited along the chain of
  constructors, and \<^verbatim>\<open>LiteElement\<close> declares none.
\<close>

fun static_properties :: "jsclass list \<Rightarrow> string list" where
  "static_properties [] = []"
| "static_properties (c # cs) =
     (case properties c of Some ps \<Rightarrow> ps | None \<Rightarrow> static_properties cs)"

text \<open>
  A bound function has no \<^verbatim>\<open>properties\<close> of its own; its prototype is the prototype
  of its target, which for a class is the parent class.
\<close>

fun statics_via_prototype :: "jsval \<Rightarrow> string list" where
  "statics_via_prototype (Ctor (c # cs)) = static_properties cs"
| "statics_via_prototype (Bound f r) = statics_via_prototype f"
| "statics_via_prototype _ = []"

text \<open>
  The keys that \<^verbatim>\<open>for (const property in (this.constructor as any).properties)\<close>
  runs over, given the value of \<^verbatim>\<open>this.constructor\<close>. A loop over \<^verbatim>\<open>undefined\<close>
  runs no iteration.
\<close>

fun properties_keys :: "jsval \<Rightarrow> error + string list" where
  "properties_keys Undefined = Inl TypeError"
| "properties_keys Null = Inl TypeError"
| "properties_keys (Ctor cs) = Inr (static_properties cs)"
| "properties_keys (Bound f r) = Inr (statics_via_prototype f)"
| "properties_keys _ = Inr []"

fun reactive_all :: "controller \<Rightarrow> string list \<Rightarrow> error + controller" where
  "reactive_all this [] = Inr this"
| "reactive_all this (p # ps) =
     (case reactive this p of Inl e \<Rightarrow> Inl e | Inr this' \<Rightarrow> reactive_all this' ps)"

definition initReactiveProperties :: "controller \<Rightarrow> error + controller" where
  "initReactiveProperties this =
     (if \<not> reactivePropertiesInitialized this then
        (let this1 = this\<lparr>reactivePropertiesInitialized := True\<rparr> in
         case js_get this1 ''constructor'' of
           Inl e \<Rightarrow> Inl e
         | Inr (K, this2) \<Rightarrow>
             (case properties_keys K of
                Inl e \<Rightarrow> Inl e
              | Inr ps \<Rightarrow> reactive_all this2 ps))
      else Inr this)"

section \<open>The constructor of \<^verbatim>\<open>LiteElement\<close>\<close>

text \<open>
  \<^verbatim>\<open>Object.getOwnPropertyNames(Object.getPrototypeOf(this))\<close>: the own property names
  of the first prototype of the chain, and of no other.
\<close>

definition getOwnPropertyNames :: "jsclass list \<Rightarrow> string list" where
  "getOwnPropertyNames cs =
     (case cs of
        [] \<Rightarrow> ''constructor'' # LiteElement_methods
      | c # _ \<Rightarrow> ''constructor'' # methods c)"

fun typeof_function :: "jsval \<Rightarrow> bool" where
  "typeof_function (Method m) = True"
| "typeof_function (Ctor cs) = True"
| "typeof_function (Bound f r) = True"
| "typeof_function _ = False"

text \<open>
  Reading a key of an object that has no accessor property, as the object under
  construction is; \<open>plain_agrees_get\<close> below relates it to \<open>js_get\<close>.
\<close>

definition plain :: "controller \<Rightarrow> string \<Rightarrow> jsval" where
  "plain this k =
     (case own this k of
        Some (Data v) \<Rightarrow> v
      | Some (Accessor ik ov) \<Rightarrow> Undefined
      | None \<Rightarrow> proto_get (proto this) k)"

text \<open>
  \<^verbatim>\<open>
  constructor(host: LitElement, element: HTMLElement) {
      this.host = host;
      this.element = element;
      host.addController(this);
      const methodNames = Object.getOwnPropertyNames(Object.getPrototypeOf(this))
          .filter(prop => typeof (this as any)[prop] === 'function');
      for (const methodName of methodNames) {
          (this as any)[methodName] = (this as any)[methodName].bind(this);
      }
  }
  \<close>
  \<open>r\<close> is the reference of the object being constructed. The call of
  \<^verbatim>\<open>addController\<close> is recorded where the instance is allocated (\<open>new_instance\<close>).
\<close>

definition LiteElement_constructor :: "jsclass list \<Rightarrow> nat \<Rightarrow> nat \<Rightarrow> nat \<Rightarrow> controller" where
  "LiteElement_constructor cls h e r =
     (let this = \<lparr>host = h, element = e, reactivePropertiesInitialized = False,
                  own = Map.empty, proto = cls, ref = r\<rparr>;
          methodNames = filter (\<lambda>prop. typeof_function (plain this prop))
                          (getOwnPropertyNames (proto this))
      in foldl (\<lambda>this methodName. put this methodName (Bound (plain this methodName) (ref this)))
           this methodNames)"

text \<open>
  The object a function value runs with as \<^verbatim>\<open>this\<close> when it is called with receiver
  \<open>recv\<close> (\<open>None\<close> for a bare call such as an extracted callback): a bound function
  ignores the receiver.
\<close>

fun call_this :: "jsval \<Rightarrow> nat option \<Rightarrow> nat option" where
  "call_this (Bound f r) recv = call_this f (Some r)"
| "call_this f recv = recv"

section \<open>The registry and the discovery pass\<close>

text \<open>
  A marker element as \<^verbatim>\<open>querySelectorAll('[lite]')\<close> returns it: its identity, whether
  it is an \<^verbatim>\<open>HTMLElement\<close>, and the value of its \<^verbatim>\<open>lite\<close> attribute (a string,
  since the selector matched).
\<close>

record dom_element =
  eid :: nat
  isHTMLElement :: bool
  lite_attr :: string

text \<open>
  A registered constructor is code of a concrete controller class, outside the
  repository: a function of the host, the element and the reference of the new object,
  which returns the constructed controller or throws.
\<close>

type_synonym ctor = "nat \<Rightarrow> nat \<Rightarrow> nat \<Rightarrow> error + controller"

record world =
  liteElementsMap :: "string \<rightharpoonup> ctor"
  liteElementsInstancesMap :: "nat \<rightharpoonup> nat"
  instances :: "controller list"
  controllers :: "(nat \<times> nat) list"
  commits :: "(nat \<times> string) list"

text \<open>
  \<open>instances\<close> holds every controller constructed so far, a reference being an index
  into it; \<open>controllers\<close> lists the calls \<^verbatim>\<open>host.addController(instance)\<close> and
  \<open>commits\<close> the calls \<^verbatim>\<open>render(result, element)\<close>, oldest first. JavaScript has no
  dangling reference: the references held by \<^verbatim>\<open>liteElementsInstancesMap\<close> are indices
  of \<open>instances\<close> (\<open>refs_valid\<close> below, which registration and every pass preserve).
\<close>

text \<open>
  \<^verbatim>\<open>
  elements.forEach(([name, LiteElementConstructor]) => {
      liteElementsMap.set(name, LiteElementConstructor);
  });
  \<close>
\<close>

definition lite :: "(string \<times> ctor) list \<Rightarrow> world \<Rightarrow> world" where
  "lite elements w =
     foldl (\<lambda>w (name, LiteElementConstructor).
              w\<lparr>liteElementsMap := (liteElementsMap w)(name \<mapsto> LiteElementConstructor)\<rparr>)
       w elements"

text \<open>\<^verbatim>\<open>new LiteElementConstructor(this, liteElementHost)\<close>\<close>

definition new_instance :: "ctor \<Rightarrow> nat \<Rightarrow> nat \<Rightarrow> world \<Rightarrow> error + nat \<times> world" where
  "new_instance LiteElementConstructor h e w =
     (let r = length (instances w) in
      case LiteElementConstructor h e r of
        Inl err \<Rightarrow> Inl err
      | Inr c \<Rightarrow> Inr (r, w\<lparr>instances := instances w @ [c],
                            controllers := controllers w @ [(h, r)]\<rparr>))"

text \<open>
  \<^verbatim>\<open>new LiteElementHost(liteElementInstance, liteElementHost)\<close>, whose constructor
  runs \<^verbatim>\<open>render(this._liteElement.render(), host)\<close>. The \<^verbatim>\<open>render\<close> methods of the
  concrete classes are the parameter \<open>rnd\<close>, a function of the controller's state.
\<close>

definition LiteElementHost ::
  "(controller \<Rightarrow> error + string) \<Rightarrow> nat \<Rightarrow> nat \<Rightarrow> world \<Rightarrow> error + world" where
  "LiteElementHost rnd liteElement h w =
     (case rnd (instances w ! liteElement) of
        Inl err \<Rightarrow> Inl err
      | Inr t \<Rightarrow> Inr (w\<lparr>commits := commits w @ [(h, t)]\<rparr>))"

text \<open>
  Lines 118 to 122 of the callback: the instance of the element is looked up, and
  constructed and recorded when there is none. This is done before anything is rendered.
  \<^verbatim>\<open>
  let liteElementInstance = liteElementsInstancesMap.get(liteElementHost);
  if (!liteElementInstance) {
      liteElementInstance = new LiteElementConstructor(this, liteElementHost);
      liteElementsInstancesMap.set(liteElementHost, liteElementInstance);
  }
  \<close>
\<close>

definition associate :: "ctor \<Rightarrow> nat \<Rightarrow> nat \<Rightarrow> world \<Rightarrow> error + nat \<times> world" where
  "associate LiteElementConstructor this liteElementHost w =
     (case liteElementsInstancesMap w liteElementHost of
        None \<Rightarrow>
          (case new_instance LiteElementConstructor this liteElementHost w of
             Inl err \<Rightarrow> Inl err
           | Inr (liteElementInstance, w1) \<Rightarrow>
               Inr (liteElementInstance,
                    w1\<lparr>liteElementsInstancesMap :=
                         (liteElementsInstancesMap w1)(liteElementHost \<mapsto> liteElementInstance)\<rparr>))
      | Some liteElementInstance \<Rightarrow> Inr (liteElementInstance, w))"

text \<open>The callback of \<^verbatim>\<open>liteElements.forEach\<close> in \<^verbatim>\<open>updateContent\<close>.\<close>

definition visit ::
  "(controller \<Rightarrow> error + string) \<Rightarrow> nat \<Rightarrow> world \<Rightarrow> dom_element \<Rightarrow> error + world" where
  "visit rnd this w liteElementHost =
     (if isHTMLElement liteElementHost then
        (let liteElementName = lite_attr liteElementHost in
         if liteElementName \<noteq> [] then
           (case liteElementsMap w liteElementName of
              Some LiteElementConstructor \<Rightarrow>
                (case associate LiteElementConstructor this (eid liteElementHost) w of
                   Inl err \<Rightarrow> Inl err
                 | Inr (liteElementInstance, w1) \<Rightarrow>
                     LiteElementHost rnd liteElementInstance (eid liteElementHost) w1)
            | None \<Rightarrow> Inr w)
         else Inr w)
      else Inr w)"

fun forEach :: "('s \<Rightarrow> 'a \<Rightarrow> error + 's) \<Rightarrow> 's \<Rightarrow> 'a list \<Rightarrow> error + 's" where
  "forEach f s [] = Inr s"
| "forEach f s (x # xs) = (case f s x of Inl err \<Rightarrow> Inl err | Inr s' \<Rightarrow> forEach f s' xs)"

text \<open>
  \<^verbatim>\<open>updateContent()\<close> of the host class that \<^verbatim>\<open>lite\<close> returns. \<open>q\<close> is the value of
  \<^verbatim>\<open>this.shadowRoot?.querySelectorAll('[lite]')\<close>: \<open>None\<close> without a shadow root.
\<close>

definition updateContent ::
  "(controller \<Rightarrow> error + string) \<Rightarrow> nat \<Rightarrow> dom_element list option \<Rightarrow> world \<Rightarrow> error + world" where
  "updateContent rnd this q w =
     (case q of
        None \<Rightarrow> Inr w
      | Some liteElements \<Rightarrow>
          if length liteElements \<noteq> 0 then forEach (visit rnd this) w liteElements else Inr w)"

section \<open>Notions used in the statements\<close>

text \<open>
  An element that the discovery pass mounts a controller into: it passes the three
  guards of \<^verbatim>\<open>updateContent\<close>.
\<close>

definition is_mount_point :: "world \<Rightarrow> dom_element \<Rightarrow> bool" where
  "is_mount_point w e \<longleftrightarrow>
     isHTMLElement e \<and> lite_attr e \<noteq> [] \<and> liteElementsMap w (lite_attr e) \<noteq> None"

text \<open>Every reference held by \<^verbatim>\<open>liteElementsInstancesMap\<close> denotes a constructed instance.\<close>

definition refs_valid :: "world \<Rightarrow> bool" where
  "refs_valid w \<longleftrightarrow>
     (\<forall>x i. liteElementsInstancesMap w x = Some i \<longrightarrow> i < length (instances w))"

text \<open>The element \<open>x\<close> has an instance, and that instance renders without throwing.\<close>

definition rendered :: "(controller \<Rightarrow> error + string) \<Rightarrow> world \<Rightarrow> nat \<Rightarrow> bool" where
  "rendered rnd w x \<longleftrightarrow>
     (\<exists>i t. liteElementsInstancesMap w x = Some i \<and> i < length (instances w)
            \<and> rnd (instances w ! i) = Inr t)"

text \<open>
  The commits of a pass that only re-renders: for each mount point among \<open>es\<close>, in
  order, the output of its instance as it is in \<open>w\<close>.
\<close>

fun rerender_existing ::
  "(controller \<Rightarrow> error + string) \<Rightarrow> world \<Rightarrow> dom_element list \<Rightarrow> (nat \<times> string) list" where
  "rerender_existing rnd w [] = []"
| "rerender_existing rnd w (e # es) =
     (if is_mount_point w e then
        (case liteElementsInstancesMap w (eid e) of
           Some i \<Rightarrow> (case rnd (instances w ! i) of Inr t \<Rightarrow> [(eid e, t)] | Inl err \<Rightarrow> [])
         | None \<Rightarrow> [])
      else []) @ rerender_existing rnd w es"

text \<open>
  Every own property of \<open>c\<close> is a data property holding a function that runs with the
  instance \<open>r\<close> as \<^verbatim>\<open>this\<close> however it is called.
\<close>

definition bound_to :: "nat \<Rightarrow> controller \<Rightarrow> bool" where
  "bound_to r c \<longleftrightarrow>
     ref c = r \<and> (\<forall>k. case own c k of
                          None \<Rightarrow> True
                        | Some (Data v) \<Rightarrow> \<forall>recv. call_this v recv = Some r
                        | Some (Accessor ik ov) \<Rightarrow> False)"

section \<open>A counter, as in the end-to-end scenario\<close>

text \<open>
  \<^verbatim>\<open>
  class CounterBase extends LiteElement { static properties = { count: {} }; }
  class Counter extends CounterBase {
      count = 0;
      render() { ... }
      increment() { this.count = this.count + 1; }
  }
  \<close>
  on host 7 and element 3, and a controller class whose click handler is inherited.
\<close>

definition counter_base :: jsclass where
  "counter_base = JsClass [] (Some [''count''])"

definition counter_view :: jsclass where
  "counter_view = JsClass [''render'', ''increment''] None"

definition counter_ctor :: ctor where
  "counter_ctor h e r =
     Inr (put (LiteElement_constructor [counter_view, counter_base] h e r) ''count'' (JNum 0))"

definition counter_fresh :: controller where
  "counter_fresh = put (LiteElement_constructor [counter_view, counter_base] 7 3 0) ''count'' (JNum 0)"

definition counter_installed :: controller where
  "counter_installed =
     counter_fresh\<lparr>reactivePropertiesInitialized := True,
                    own := (own counter_fresh)(''count'' \<mapsto> Accessor ''__count'' (JNum 0))\<rparr>"

definition handler_base :: jsclass where
  "handler_base = JsClass [''onClick''] None"

definition handler_view :: jsclass where
  "handler_view = JsClass [''render''] None"

definition handler_ctor :: ctor where
  "handler_ctor h e r = Inr (LiteElement_constructor [handler_view, handler_base] h e r)"

definition no_requests :: "nat \<Rightarrow> nat" where
  "no_requests h = 0"

definition show_count :: "controller \<Rightarrow> error + string" where
  "show_count c =
     (case (case own c ''count'' of
              Some (Data v) \<Rightarrow> v
            | Some (Accessor ik ov) \<Rightarrow>
                (case own c ik of Some (Data (Obj (ReactiveProperty h v))) \<Rightarrow> v | _ \<Rightarrow> ov)
            | None \<Rightarrow> Undefined) of
        JNum n \<Rightarrow> Inr (if n = 0 then ''count=0'' else ''count=n'')
      | _ \<Rightarrow> Inr ''count=?'')"

definition empty_world :: world where
  "empty_world = \<lparr>liteElementsMap = Map.empty, liteElementsInstancesMap = Map.empty,
                   instances = [], controllers = [], commits = []\<rparr>"

definition registered_world :: world where
  "registered_world =
     lite [(''counter'', handler_ctor), ([], counter_ctor), (''counter'', counter_ctor)] empty_world"

definition marker :: dom_element where
  "marker = \<lparr>eid = 3, isHTMLElement = True, lite_attr = ''counter''\<rparr>"

definition svg_marker :: dom_element where
  "svg_marker = \<lparr>eid = 4, isHTMLElement = False, lite_attr = ''counter''\<rparr>"

definition unnamed_marker :: dom_element where
  "unnamed_marker = \<lparr>eid = 5, isHTMLElement = True, lite_attr = []\<rparr>"

definition typo_marker :: dom_element where
  "typo_marker = \<lparr>eid = 6, isHTMLElement = True, lite_attr = ''countre''\<rparr>"

text \<open>
  The counter after a first read of \<^verbatim>\<open>count\<close>, and the world after a first pass over
  the element \<open>marker\<close>.
\<close>

definition counter_read :: controller where
  "counter_read = put counter_installed ''__count'' (Obj (ReactiveProperty 7 (JNum 0)))"

definition first_pass_world :: world where
  "first_pass_world =
     registered_world\<lparr>liteElementsInstancesMap := [3 \<mapsto> 0],
                       instances := [counter_fresh],
                       controllers := [(7, 0)],
                       commits := [(3, ''count=0'')]\<rparr>"

text \<open>
  The counter whose class declares the reactive field itself,
  \<^verbatim>\<open>class Counter extends LiteElement { static properties = { count: {} }; count = 0; ... }\<close>,
  as constructed and after the installation step; and a \<^verbatim>\<open>render\<close> that throws.
\<close>

definition counter_direct :: jsclass where
  "counter_direct = JsClass [''render'', ''increment''] (Some [''count''])"

definition direct_fresh :: controller where
  "direct_fresh = put (LiteElement_constructor [counter_direct] 7 3 0) ''count'' (JNum 0)"

definition direct_flagged :: controller where
  "direct_flagged = direct_fresh\<lparr>reactivePropertiesInitialized := True\<rparr>"

definition throwing_render :: "controller \<Rightarrow> error + string" where
  "throwing_render c = Inl (Thrown ''render failed'')"

section \<open>Basic facts about property access\<close>

lemma raw_cong: "own c' k = own c k \<Longrightarrow> proto c' = proto c \<Longrightarrow> raw c' k = raw c k"
  by (simp add: raw_def split: option.splits)

lemma plain_cong: "own c' k = own c k \<Longrightarrow> proto c' = proto c \<Longrightarrow> plain c' k = plain c k"
  by (simp add: plain_def split: option.splits)

lemma raw_put_same [simp]: "raw (put c k v) k = Inr v"
  by (simp add: raw_def put_def)

lemma own_put [simp]: "own (put c k v) = (own c)(k \<mapsto> Data v)"
  by (simp add: put_def)

lemma host_put [simp]: "host (put c k v) = host c"
  by (simp add: put_def)

lemma flag_put [simp]:
  "reactivePropertiesInitialized (put c k v) = reactivePropertiesInitialized c"
  by (simp add: put_def)

lemma proto_put [simp]: "proto (put c k v) = proto c"
  by (simp add: put_def)

text \<open>
  On a key that is no accessor property, \<open>plain\<close> and \<open>put\<close> are what reading and
  assigning do; this is the situation of the constructor.
\<close>

lemma plain_agrees_get:
  "\<forall>ik ov. own c k \<noteq> Some (Accessor ik ov) \<Longrightarrow> js_get c k = Inr (plain c k, c)"
  by (auto simp: js_get_def plain_def split: option.splits property.splits)

lemma plain_agrees_set:
  "\<forall>ik ov. own c k \<noteq> Some (Accessor ik ov) \<Longrightarrow> js_set c k v u = Inr (put c k v, u)"
  by (auto simp: js_set_def split: option.splits property.splits)

lemma js_set_accessor:
  "own c F = Some (Accessor ik ov) \<Longrightarrow> js_set c F v u = setter ik v c u"
  by (simp add: js_set_def)

lemma js_get_accessor:
  "own c F = Some (Accessor ik ov) \<Longrightarrow> js_get c F = getter ik ov c"
  by (simp add: js_get_def)

section \<open>Reads and writes of a reactive field\<close>

lemma setter_fresh:
  "raw c ik = Inr Undefined \<Longrightarrow>
   setter ik v c u = Inr (put c ik (Obj (ReactiveProperty (host c) v)), u)"
  by (simp add: setter_def)

lemma setter_slot:
  "raw c ik = Inr (Obj (ReactiveProperty h x)) \<Longrightarrow>
   setter ik v c u = Inr (put c ik (Obj (ReactiveProperty h v)), requestUpdate h u)"
  by (simp add: setter_def)


lemma getter_slot:
  "raw c ik = Inr (Obj (ReactiveProperty h x)) \<Longrightarrow> getter ik ov c = Inr (x, c)"
  by (simp add: getter_def)

lemma getter_fresh:
  "raw c ik = Inr Undefined \<Longrightarrow>
   getter ik ov c = Inr (ov, put c ik (Obj (ReactiveProperty (host c) ov)))"
  by (simp add: getter_def)


text \<open>
  Claim C1, as amended. A write to an installed reactive field whose backing slot exists
  issues exactly one re-render request on the slot's host, whatever the value written
  and the value held; a write that finds no slot creates it and issues none. So writing
  \<open>v1\<close> then \<open>v2\<close> issues two requests when the slot existed before the first write and
  one when the first write created it; in both cases a read then returns \<open>v2\<close>.
\<close>

theorem write_requests_once_slot_exists:
  assumes acc: "own c F = Some (Accessor ik ov)" and ne: "F \<noteq> ik"
  shows "(raw c ik = Inr (Obj (ReactiveProperty (host c) x)) \<longrightarrow>
          (\<exists>c1 c2. js_set c F v1 u = Inr (c1, requestUpdate (host c) u)
             \<and> js_set c1 F v2 (requestUpdate (host c) u)
                  = Inr (c2, requestUpdate (host c) (requestUpdate (host c) u))
             \<and> js_get c2 F = Inr (v2, c2)))
      \<and> (raw c ik = Inr Undefined \<longrightarrow>
          (\<exists>c1 c2. js_set c F v1 u = Inr (c1, u)
             \<and> js_set c1 F v2 u = Inr (c2, requestUpdate (host c) u)
             \<and> js_get c2 F = Inr (v2, c2)))"
proof (intro conjI impI)
  assume slot: "raw c ik = Inr (Obj (ReactiveProperty (host c) x))"
  let ?h = "host c"
  let ?c1 = "put c ik (Obj (ReactiveProperty ?h v1))"
  let ?c2 = "put ?c1 ik (Obj (ReactiveProperty ?h v2))"
  have a1: "own ?c1 F = Some (Accessor ik ov)" and a2: "own ?c2 F = Some (Accessor ik ov)"
    using acc ne by simp_all
  have "js_set c F v1 u = Inr (?c1, requestUpdate ?h u)"
    using acc slot by (simp add: js_set_accessor setter_slot)
  moreover have "js_set ?c1 F v2 (requestUpdate ?h u)
                 = Inr (?c2, requestUpdate ?h (requestUpdate ?h u))"
    using a1 by (simp add: js_set_accessor setter_slot)
  moreover have "js_get ?c2 F = Inr (v2, ?c2)"
    using a2 by (simp add: js_get_accessor getter_slot)
  ultimately show "\<exists>c1 c2. js_set c F v1 u = Inr (c1, requestUpdate (host c) u)
             \<and> js_set c1 F v2 (requestUpdate (host c) u)
                  = Inr (c2, requestUpdate (host c) (requestUpdate (host c) u))
             \<and> js_get c2 F = Inr (v2, c2)"
    by blast
next
  assume fresh: "raw c ik = Inr Undefined"
  let ?c1 = "put c ik (Obj (ReactiveProperty (host c) v1))"
  let ?c2 = "put ?c1 ik (Obj (ReactiveProperty (host c) v2))"
  have a1: "own ?c1 F = Some (Accessor ik ov)" and a2: "own ?c2 F = Some (Accessor ik ov)"
    using acc ne by simp_all
  have "js_set c F v1 u = Inr (?c1, u)"
    using acc fresh by (simp add: js_set_accessor setter_fresh)
  moreover have "js_set ?c1 F v2 u = Inr (?c2, requestUpdate (host c) u)"
    using a1 by (simp add: js_set_accessor setter_slot)
  moreover have "js_get ?c2 F = Inr (v2, ?c2)"
    using a2 by (simp add: js_get_accessor getter_slot)
  ultimately show "\<exists>c1 c2. js_set c F v1 u = Inr (c1, u)
             \<and> js_set c1 F v2 u = Inr (c2, requestUpdate (host c) u)
             \<and> js_get c2 F = Inr (v2, c2)"
    by blast
qed

section \<open>Installation of the reactive fields happens once\<close>

lemma getter_flag:
  "getter ik ov c = Inr (v, c') \<Longrightarrow>
   reactivePropertiesInitialized c' = reactivePropertiesInitialized c"
  by (auto simp: getter_def Let_def split: sum.splits jsval.splits if_splits)

lemma js_get_flag:
  "js_get c k = Inr (v, c') \<Longrightarrow>
   reactivePropertiesInitialized c' = reactivePropertiesInitialized c"
  by (auto simp: js_get_def split: option.splits property.splits dest: getter_flag)

lemma reactive_flag:
  "reactive c p = Inr c' \<Longrightarrow>
   reactivePropertiesInitialized c' = reactivePropertiesInitialized c"
  by (auto simp: reactive_def Let_def split: sum.splits dest: js_get_flag)

lemma reactive_all_flag:
  "reactive_all c ps = Inr c' \<Longrightarrow>
   reactivePropertiesInitialized c' = reactivePropertiesInitialized c"
proof (induction ps arbitrary: c)
  case Nil
  then show ?case by simp
next
  case (Cons p ps)
  then obtain c1 where r: "reactive c p = Inr c1" and rest: "reactive_all c1 ps = Inr c'"
    by (auto split: sum.splits)
  from Cons.IH [OF rest] reactive_flag [OF r] show ?case by simp
qed

lemma init_sets_flag:
  assumes "initReactiveProperties c = Inr c'"
  shows "reactivePropertiesInitialized c'"
proof (cases "reactivePropertiesInitialized c")
  case True
  with assms show ?thesis by (simp add: initReactiveProperties_def)
next
  case False
  let ?c1 = "c\<lparr>reactivePropertiesInitialized := True\<rparr>"
  from assms False obtain K c2 ps where
    g: "js_get ?c1 ''constructor'' = Inr (K, c2)" and ra: "reactive_all c2 ps = Inr c'"
    by (auto simp: initReactiveProperties_def Let_def split: sum.splits)
  from js_get_flag [OF g] reactive_all_flag [OF ra] show ?thesis by simp
qed

lemma init_guarded:
  "reactivePropertiesInitialized c \<Longrightarrow> initReactiveProperties c = Inr c"
  by (simp add: initReactiveProperties_def)

text \<open>
  Claim C6. Running the installation step twice is running it once: the second run finds
  the flag set and returns the controller as it is, so no accessor is wrapped again and
  no value is reset.
\<close>

theorem install_twice_is_install_once:
  "(case initReactiveProperties c of Inl e \<Rightarrow> Inl e | Inr c' \<Rightarrow> initReactiveProperties c')
     = initReactiveProperties c
   \<and> (\<forall>c'. initReactiveProperties c = Inr c' \<longrightarrow> initReactiveProperties c' = Inr c')"
proof (intro conjI allI impI)
  show "(case initReactiveProperties c of Inl e \<Rightarrow> Inl e | Inr c' \<Rightarrow> initReactiveProperties c')
          = initReactiveProperties c"
  proof (cases "initReactiveProperties c")
    case (Inl e)
    then show ?thesis by simp
  next
    case (Inr c')
    from init_sets_flag [OF Inr] have "initReactiveProperties c' = Inr c'"
      by (rule init_guarded)
    with Inr show ?thesis by simp
  qed
next
  fix c'
  assume "initReactiveProperties c = Inr c'"
  then have "reactivePropertiesInitialized c'" by (rule init_sets_flag)
  then show "initReactiveProperties c' = Inr c'" by (rule init_guarded)
qed

section \<open>The first read of a freshly installed field\<close>

lemma reactive_plain:
  assumes "\<forall>ik ov. own c p \<noteq> Some (Accessor ik ov)"
  shows "reactive c p =
         Inr (c\<lparr>own := (own c)(p \<mapsto> Accessor (internalKey_of p) (plain c p))\<rparr>)"
  using assms by (simp add: reactive_def plain_agrees_get)

lemma reactive_all_plain:
  assumes "distinct ps" and "\<forall>p\<in>set ps. \<forall>ik ov. own c p \<noteq> Some (Accessor ik ov)"
  shows "reactive_all c ps =
         Inr (c\<lparr>own := (\<lambda>k. if k \<in> set ps
                              then Some (Accessor (internalKey_of k) (plain c k))
                              else own c k)\<rparr>)"
  using assms
proof (induction ps arbitrary: c)
  case Nil
  then show ?case by simp
next
  case (Cons p ps)
  let ?c1 = "c\<lparr>own := (own c)(p \<mapsto> Accessor (internalKey_of p) (plain c p))\<rparr>"
  let ?f1 = "\<lambda>k. if k \<in> set ps then Some (Accessor (internalKey_of k) (plain ?c1 k))
                 else own ?c1 k"
  let ?f2 = "\<lambda>k. if k \<in> set (p # ps) then Some (Accessor (internalKey_of k) (plain c k))
                 else own c k"
  have step: "reactive c p = Inr ?c1"
    using Cons.prems by (simp add: reactive_plain)
  have d: "distinct ps" and notin: "p \<notin> set ps" using Cons.prems by simp_all
  have na: "\<forall>q\<in>set ps. \<forall>ik ov. own ?c1 q \<noteq> Some (Accessor ik ov)"
    using Cons.prems notin by auto
  have pl: "\<And>k. k \<in> set ps \<Longrightarrow> plain ?c1 k = plain c k"
    using notin by (intro plain_cong) auto
  have feq: "?f1 = ?f2"
    using notin pl by (auto simp: fun_eq_iff)
  have "reactive_all c (p # ps) = reactive_all ?c1 ps"
    by (simp only: reactive_all.simps step sum.case)
  also have "\<dots> = Inr (?c1\<lparr>own := ?f1\<rparr>)"
    by (rule Cons.IH [OF d na])
  also have "?c1\<lparr>own := ?f1\<rparr> = c\<lparr>own := ?f2\<rparr>"
    by (simp only: feq) simp
  finally show ?case .
qed

text \<open>
  The fields the installation loop does reach. Take a controller on which the
  installation step has not run and no property is an accessor, let \<open>ps\<close> be the keys
  the loop runs over, and let neither a property nor one of these keys be the internal
  key of \<open>F\<close>. Then installation succeeds, and the first read of a field \<open>F\<close> among \<open>ps\<close>
  afterwards returns the value \<open>F\<close> held before and leaves the backing slot created,
  seeded with that value and the controller's host.
\<close>

theorem read_before_write_returns_original:
  assumes fresh: "\<not> reactivePropertiesInitialized c"
      and noacc: "\<forall>k ik ov. own c k \<noteq> Some (Accessor ik ov)"
      and decl: "properties_keys (plain c ''constructor'') = Inr ps"
      and dist: "distinct ps"
      and F: "F \<in> set ps"
      and ik: "internalKey_of F \<notin> set ps"
      and slot: "raw c (internalKey_of F) = Inr Undefined"
  shows "\<exists>c'. initReactiveProperties c = Inr c'
            \<and> own c' F = Some (Accessor (internalKey_of F) (plain c F))
            \<and> raw c' (internalKey_of F) = Inr Undefined
            \<and> js_get c' F = Inr (plain c F,
                 put c' (internalKey_of F) (Obj (ReactiveProperty (host c) (plain c F))))"
proof -
  let ?c1 = "c\<lparr>reactivePropertiesInitialized := True\<rparr>"
  let ?c' = "?c1\<lparr>own := (\<lambda>k. if k \<in> set ps
                                then Some (Accessor (internalKey_of k) (plain ?c1 k))
                                else own ?c1 k)\<rparr>"
  have g: "js_get ?c1 ''constructor'' = Inr (plain ?c1 ''constructor'', ?c1)"
    using noacc by (simp add: plain_agrees_get)
  have pc: "\<And>k. plain ?c1 k = plain c k"
    by (rule plain_cong) simp_all
  have ra: "reactive_all ?c1 ps = Inr ?c'"
    using dist noacc by (intro reactive_all_plain) simp_all
  have init: "initReactiveProperties c = Inr ?c'"
    using fresh g decl ra by (simp add: initReactiveProperties_def pc)
  have acc: "own ?c' F = Some (Accessor (internalKey_of F) (plain c F))"
    using F by (simp add: pc)
  have "raw ?c' (internalKey_of F) = raw c (internalKey_of F)"
    using ik by (intro raw_cong) simp_all
  with slot have empty: "raw ?c' (internalKey_of F) = Inr Undefined" by simp
  then have "getter (internalKey_of F) (plain c F) ?c' =
               Inr (plain c F,
                    put ?c' (internalKey_of F) (Obj (ReactiveProperty (host ?c') (plain c F))))"
    by (rule getter_fresh)
  with acc have "js_get ?c' F = Inr (plain c F,
                 put ?c' (internalKey_of F) (Obj (ReactiveProperty (host c) (plain c F))))"
    by (simp add: js_get_accessor)
  with init acc empty show ?thesis by blast
qed

section \<open>What the constructor binds\<close>

lemma call_this_proto_get [simp]: "call_this (proto_get cls k) recv = recv"
  by (induction cls) (simp_all add: LiteElement_methods_def)

lemma typeof_function_own_names:
  "m \<in> set (getOwnPropertyNames cls) \<Longrightarrow> typeof_function (proto_get cls m)"
  by (cases cls) (auto simp: getOwnPropertyNames_def LiteElement_methods_def)

lemma bound_to_plain:
  assumes "bound_to r c"
  shows "call_this (plain c k) (Some r) = Some r"
proof (cases "own c k")
  case None
  then show ?thesis by (simp add: plain_def)
next
  case (Some p)
  with assms show ?thesis
    by (cases p) (auto simp: plain_def bound_to_def dest!: spec [of _ k])
qed

lemma bound_to_step:
  assumes "bound_to r c"
  shows "bound_to r (put c m (Bound (plain c m) (ref c)))"
  using assms bound_to_plain [OF assms, of m]
  by (auto simp: bound_to_def put_def split: option.splits property.splits)

lemma bind_loop_keeps:
  "own c k \<noteq> None \<Longrightarrow>
   own (foldl (\<lambda>this methodName. put this methodName (Bound (plain this methodName) (ref this)))
          c ms) k \<noteq> None"
  by (induction ms arbitrary: c) (auto simp: put_def)

lemma bind_loop:
  assumes "bound_to r c"
  shows "bound_to r
           (foldl (\<lambda>this methodName. put this methodName (Bound (plain this methodName) (ref this)))
              c ms)
       \<and> (\<forall>m\<in>set ms.
             own (foldl (\<lambda>this methodName. put this methodName (Bound (plain this methodName) (ref this)))
                    c ms) m \<noteq> None)"
  using assms
proof (induction ms arbitrary: c)
  case Nil
  then show ?case by simp
next
  case (Cons m ms)
  let ?c1 = "put c m (Bound (plain c m) (ref c))"
  have b1: "bound_to r ?c1" using Cons.prems by (rule bound_to_step)
  have "own ?c1 m \<noteq> None" by (simp add: put_def)
  then have "own (foldl (\<lambda>this methodName. put this methodName (Bound (plain this methodName) (ref this)))
                    ?c1 ms) m \<noteq> None"
    by (rule bind_loop_keeps)
  with Cons.IH [OF b1] show ?case by simp
qed

lemma constructor_as_loop:
  "LiteElement_constructor cls h e r =
   foldl (\<lambda>this methodName. put this methodName (Bound (plain this methodName) (ref this)))
     \<lparr>host = h, element = e, reactivePropertiesInitialized = False,
      own = Map.empty, proto = cls, ref = r\<rparr>
     (getOwnPropertyNames cls)"
proof -
  let ?c0 = "\<lparr>host = h, element = e, reactivePropertiesInitialized = False,
               own = Map.empty, proto = cls, ref = r\<rparr>"
  have pl: "\<And>k. plain ?c0 k = proto_get cls k" by (simp add: plain_def)
  have "filter (\<lambda>prop. typeof_function (plain ?c0 prop)) (getOwnPropertyNames cls)
        = getOwnPropertyNames cls"
    by (simp add: pl typeof_function_own_names)
  then show ?thesis
    unfolding LiteElement_constructor_def Let_def by simp
qed

lemma constructor_bound_to: "bound_to r (LiteElement_constructor cls h e r)"
proof -
  have "bound_to r \<lparr>host = h, element = e, reactivePropertiesInitialized = False,
                    own = Map.empty, proto = cls, ref = r\<rparr>"
    by (simp add: bound_to_def)
  from bind_loop [OF this] show ?thesis by (simp add: constructor_as_loop)
qed

lemma constructor_no_accessor:
  "own (LiteElement_constructor cls h e r) k \<noteq> Some (Accessor ik ov)"
  using constructor_bound_to [of r cls h e]
  by (auto simp: bound_to_def dest!: spec [of _ k])

text \<open>
  The methods the constructor does bind: every own property name of the first prototype
  of the chain, \<^verbatim>\<open>constructor\<close> included, ends up as a function that runs with the
  instance as \<^verbatim>\<open>this\<close> whatever the receiver of the call.
\<close>

lemma constructor_binds_own_methods:
  assumes "m \<in> set (getOwnPropertyNames cls)"
  shows "call_this (plain (LiteElement_constructor cls h e r) m) recv = Some r"
proof -
  let ?c0 = "\<lparr>host = h, element = e, reactivePropertiesInitialized = False,
               own = Map.empty, proto = cls, ref = r\<rparr>"
  have b0: "bound_to r ?c0" by (simp add: bound_to_def)
  from bind_loop [OF b0, of "getOwnPropertyNames cls"] assms
  have o: "own (LiteElement_constructor cls h e r) m \<noteq> None"
    by (simp add: constructor_as_loop)
  then obtain p where p: "own (LiteElement_constructor cls h e r) m = Some p" by auto
  with constructor_bound_to [of r cls h e] show ?thesis
    by (cases p) (auto simp: plain_def bound_to_def dest!: spec [of _ m])
qed

lemma statics_step:
  assumes "own c ''constructor'' = Some (Data (Bound f (ref c)))"
  shows "\<exists>g. own (put c m (Bound (plain c m) (ref c))) ''constructor''
                = Some (Data (Bound g (ref (put c m (Bound (plain c m) (ref c))))))
              \<and> statics_via_prototype g = statics_via_prototype f"
proof (cases "m = ''constructor''")
  case True
  with assms have "plain c m = Bound f (ref c)" by (simp add: plain_def)
  with True show ?thesis by (simp add: put_def)
next
  case False
  with assms show ?thesis by (simp add: put_def)
qed

lemma statics_loop:
  assumes "own c ''constructor'' = Some (Data (Bound f (ref c)))"
  shows "\<exists>g. own (foldl (\<lambda>this methodName.
                          put this methodName (Bound (plain this methodName) (ref this))) c ms)
                ''constructor''
              = Some (Data (Bound g (ref c)))
            \<and> statics_via_prototype g = statics_via_prototype f"
  using assms
proof (induction ms arbitrary: c f)
  case Nil
  then show ?case by simp
next
  case (Cons m ms)
  let ?c1 = "put c m (Bound (plain c m) (ref c))"
  from statics_step [OF Cons.prems, of m] obtain g where
    g: "own ?c1 ''constructor'' = Some (Data (Bound g (ref ?c1)))"
       "statics_via_prototype g = statics_via_prototype f"
    by blast
  have r: "ref ?c1 = ref c" by (simp add: put_def)
  from Cons.IH [OF g(1)] g(2) r show ?case by simp
qed

text \<open>
  Once the constructor has returned, \<^verbatim>\<open>this.constructor\<close> is the bound function made by
  the binding loop, and its \<^verbatim>\<open>properties\<close> are those the parent class inherits: a
  static \<^verbatim>\<open>properties\<close> declared by the class of the instance itself is no longer
  reached. An installation that first runs after construction, on a class that extends
  \<^verbatim>\<open>LiteElement\<close> directly, therefore installs nothing.
\<close>

theorem own_statics_hidden_after_construction:
  "properties_keys (plain (LiteElement_constructor (c # cs) h e r) ''constructor'')
     = Inr (static_properties cs)
   \<and> initReactiveProperties (LiteElement_constructor [c] h e r)
     = Inr ((LiteElement_constructor [c] h e r)\<lparr>reactivePropertiesInitialized := True\<rparr>)"
proof -
  have keys: "properties_keys (plain (LiteElement_constructor (c # cs') h e r) ''constructor'')
                = Inr (static_properties cs')" for cs'
  proof -
    let ?d0 = "\<lparr>host = h, element = e, reactivePropertiesInitialized = False,
                 own = Map.empty, proto = c # cs', ref = r\<rparr>"
    let ?d1 = "put ?d0 ''constructor'' (Bound (plain ?d0 ''constructor'') (ref ?d0))"
    have start: "own ?d1 ''constructor'' = Some (Data (Bound (Ctor (c # cs')) (ref ?d1)))"
      by (simp add: put_def plain_def)
    have "LiteElement_constructor (c # cs') h e r =
          foldl (\<lambda>this methodName. put this methodName (Bound (plain this methodName) (ref this)))
            ?d1 (methods c)"
      by (simp add: constructor_as_loop getOwnPropertyNames_def)
    with statics_loop [OF start, of "methods c"] obtain g where
      "own (LiteElement_constructor (c # cs') h e r) ''constructor'' = Some (Data (Bound g r))"
      "statics_via_prototype g = static_properties cs'"
      by (auto simp: put_def)
    then show ?thesis by (simp add: plain_def)
  qed
  let ?k = "LiteElement_constructor [c] h e r"
  have flag: "\<not> reactivePropertiesInitialized ?k"
  proof -
    have "\<And>c' ms. reactivePropertiesInitialized
            (foldl (\<lambda>this methodName. put this methodName (Bound (plain this methodName) (ref this)))
               c' ms) = reactivePropertiesInitialized c'"
    proof -
      fix c' :: controller and ms
      show "reactivePropertiesInitialized
            (foldl (\<lambda>this methodName. put this methodName (Bound (plain this methodName) (ref this)))
               c' ms) = reactivePropertiesInitialized c'"
        by (induction ms arbitrary: c') simp_all
    qed
    then show ?thesis by (simp add: constructor_as_loop)
  qed
  have na: "\<forall>ik ov. own (?k\<lparr>reactivePropertiesInitialized := True\<rparr>) ''constructor''
               \<noteq> Some (Accessor ik ov)"
    by (simp add: constructor_no_accessor)
  have pl: "plain (?k\<lparr>reactivePropertiesInitialized := True\<rparr>) ''constructor''
            = plain ?k ''constructor''"
    by (rule plain_cong) simp_all
  have "initReactiveProperties ?k = Inr (?k\<lparr>reactivePropertiesInitialized := True\<rparr>)"
    using flag keys [of "[]"]
    by (simp add: initReactiveProperties_def plain_agrees_get [OF na] pl)
  with keys [of cs] show ?thesis by simp
qed

text \<open>
  Claim C8 fails on the code. With \<^verbatim>\<open>class Base extends LiteElement { onClick() {} }\<close>
  and \<^verbatim>\<open>class View extends Base { render() {} }\<close>, the constructor of a \<^verbatim>\<open>View\<close>
  binds \<^verbatim>\<open>render\<close> and leaves the inherited \<^verbatim>\<open>onClick\<close> and the hook
  \<^verbatim>\<open>hostUpdate\<close> of \<^verbatim>\<open>LiteElement\<close> unbound: called bare, \<^verbatim>\<open>onClick\<close> runs
  without the instance.
\<close>

theorem inherited_method_not_bound:
  "plain (LiteElement_constructor [handler_view, handler_base] 7 3 0) ''onClick''
     = Method ''onClick''
   \<and> call_this (plain (LiteElement_constructor [handler_view, handler_base] 7 3 0) ''onClick'')
        None = None
   \<and> plain (LiteElement_constructor [handler_view, handler_base] 7 3 0) ''hostUpdate''
       = Method ''hostUpdate''
   \<and> call_this (plain (LiteElement_constructor [handler_view, handler_base] 7 3 0) ''render'')
        None = Some 0"
  by (simp add: LiteElement_constructor_def handler_view_def handler_base_def
       getOwnPropertyNames_def plain_def put_def LiteElement_methods_def)

section \<open>One visit of the discovery pass\<close>

text \<open>The callback with lines 118 to 122 written out in place.\<close>

lemma visit_as_written:
  "visit rnd this w liteElementHost =
     (if isHTMLElement liteElementHost then
        (let liteElementName = lite_attr liteElementHost in
         if liteElementName \<noteq> [] then
           (case liteElementsMap w liteElementName of
              Some LiteElementConstructor \<Rightarrow>
                (case liteElementsInstancesMap w (eid liteElementHost) of
                   None \<Rightarrow>
                     (case new_instance LiteElementConstructor this (eid liteElementHost) w of
                        Inl err \<Rightarrow> Inl err
                      | Inr (liteElementInstance, w1) \<Rightarrow>
                          LiteElementHost rnd liteElementInstance (eid liteElementHost)
                            (w1\<lparr>liteElementsInstancesMap :=
                                  (liteElementsInstancesMap w1)
                                    (eid liteElementHost \<mapsto> liteElementInstance)\<rparr>))
                 | Some liteElementInstance \<Rightarrow>
                     LiteElementHost rnd liteElementInstance (eid liteElementHost) w)
            | None \<Rightarrow> Inr w)
         else Inr w)
      else Inr w)"
  by (simp add: visit_def associate_def Let_def split: option.splits sum.splits)

lemma visit_skip:
  "\<not> is_mount_point w e \<Longrightarrow> visit rnd h w e = Inr w"
  by (auto simp: visit_def is_mount_point_def Let_def)

lemma visit_known:
  assumes "is_mount_point w e" and "liteElementsInstancesMap w (eid e) = Some i"
  shows "visit rnd h w e = LiteElementHost rnd i (eid e) w"
  using assms by (auto simp: visit_def associate_def is_mount_point_def Let_def)

lemma visit_new:
  assumes "isHTMLElement e" and "lite_attr e \<noteq> []"
      and "liteElementsMap w (lite_attr e) = Some K"
      and "liteElementsInstancesMap w (eid e) = None"
      and "K h (eid e) (length (instances w)) = Inr c" and "rnd c = Inr t"
  shows "visit rnd h w e =
         Inr (w\<lparr>liteElementsInstancesMap :=
                   (liteElementsInstancesMap w)(eid e \<mapsto> length (instances w)),
                instances := instances w @ [c],
                controllers := controllers w @ [(h, length (instances w))],
                commits := commits w @ [(eid e, t)]\<rparr>)"
  using assms by (simp add: visit_def associate_def new_instance_def LiteElementHost_def Let_def)

text \<open>A visit that returns did one of three things.\<close>

lemma visit_cases:
  assumes "visit rnd h w e = Inr w'"
  shows "(\<not> is_mount_point w e \<and> w' = w)
       \<or> (\<exists>i t. liteElementsInstancesMap w (eid e) = Some i \<and> is_mount_point w e
              \<and> rnd (instances w ! i) = Inr t
              \<and> w' = w\<lparr>commits := commits w @ [(eid e, t)]\<rparr>)
       \<or> (\<exists>K c t. liteElementsInstancesMap w (eid e) = None \<and> is_mount_point w e
              \<and> liteElementsMap w (lite_attr e) = Some K
              \<and> K h (eid e) (length (instances w)) = Inr c \<and> rnd c = Inr t
              \<and> w' = w\<lparr>liteElementsInstancesMap :=
                          (liteElementsInstancesMap w)(eid e \<mapsto> length (instances w)),
                       instances := instances w @ [c],
                       controllers := controllers w @ [(h, length (instances w))],
                       commits := commits w @ [(eid e, t)]\<rparr>)"
  using assms
  by (auto simp: visit_def associate_def new_instance_def LiteElementHost_def is_mount_point_def Let_def
           split: if_splits option.splits sum.splits)

lemma visit_registry:
  "visit rnd h w e = Inr w' \<Longrightarrow> liteElementsMap w' = liteElementsMap w"
  by (drule visit_cases) auto

lemma visit_mono:
  assumes "visit rnd h w e = Inr w'" and "liteElementsInstancesMap w x = Some i"
  shows "liteElementsInstancesMap w' x = Some i"
  using visit_cases [OF assms(1)] assms(2) by auto

lemma visit_prefix:
  "visit rnd h w e = Inr w' \<Longrightarrow> \<exists>cs. instances w' = instances w @ cs"
  by (drule visit_cases) auto

lemma visit_refs_valid:
  assumes "visit rnd h w e = Inr w'" and "refs_valid w"
  shows "refs_valid w'"
  unfolding refs_valid_def
proof (intro allI impI)
  fix x i
  assume a: "liteElementsInstancesMap w' x = Some i"
  from assms(2)
  have wf: "\<And>y j. liteElementsInstancesMap w y = Some j \<Longrightarrow> j < length (instances w)"
    by (simp add: refs_valid_def)
  from visit_cases [OF assms(1)] show "i < length (instances w')"
  proof (elim disjE exE conjE)
    assume "w' = w"
    with a wf show ?thesis by simp
  next
    fix j t
    assume "w' = w\<lparr>commits := commits w @ [(eid e, t)]\<rparr>"
    with a wf show ?thesis by simp
  next
    fix K c t
    assume "w' = w\<lparr>liteElementsInstancesMap :=
                      (liteElementsInstancesMap w)(eid e \<mapsto> length (instances w)),
                    instances := instances w @ [c],
                    controllers := controllers w @ [(h, length (instances w))],
                    commits := commits w @ [(eid e, t)]\<rparr>"
    with a wf [of x i] show ?thesis by (auto simp: less_Suc_eq split: if_splits)
  qed
qed

lemma visit_rendered_self:
  assumes v: "visit rnd h w e = Inr w'" and wf: "refs_valid w" and m: "is_mount_point w e"
  shows "rendered rnd w' (eid e)"
  using visit_cases [OF v] wf m
  by (auto simp: rendered_def refs_valid_def is_mount_point_def)

lemma visit_rendered_stable:
  assumes v: "visit rnd h w e = Inr w'" and r: "rendered rnd w x"
  shows "rendered rnd w' x"
proof -
  from r obtain i t where i: "liteElementsInstancesMap w x = Some i"
      "i < length (instances w)" "rnd (instances w ! i) = Inr t"
    by (auto simp: rendered_def)
  from visit_prefix [OF v] obtain cs where cs: "instances w' = instances w @ cs" ..
  have "liteElementsInstancesMap w' x = Some i" using v i(1) by (rule visit_mono)
  moreover have "i < length (instances w')" using i(2) cs by simp
  moreover have "instances w' ! i = instances w ! i" using i(2) cs by (simp add: nth_append)
  ultimately show ?thesis using i(3) by (auto simp: rendered_def)
qed

lemma visit_associated:
  assumes a: "liteElementsInstancesMap w (eid e) = Some r" and v: "visit rnd h w e = Inr w'"
  shows "instances w' = instances w \<and> controllers w' = controllers w
       \<and> liteElementsInstancesMap w' = liteElementsInstancesMap w
       \<and> liteElementsMap w' = liteElementsMap w
       \<and> (commits w' = commits w
            \<or> (\<exists>t. rnd (instances w ! r) = Inr t \<and> commits w' = commits w @ [(eid e, t)]))"
  using visit_cases [OF v] a by auto

lemma is_mount_point_cong:
  "liteElementsMap w' = liteElementsMap w \<Longrightarrow> is_mount_point w' e = is_mount_point w e"
  by (simp add: is_mount_point_def)

section \<open>A whole pass\<close>

lemma updateContent_forEach:
  "updateContent rnd h (Some es) w = forEach (visit rnd h) w es"
  by (cases es) (simp_all add: updateContent_def)

lemma pass_mono:
  assumes "forEach (visit rnd h) w es = Inr w1" and "liteElementsInstancesMap w x = Some i"
  shows "liteElementsInstancesMap w1 x = Some i"
  using assms
proof (induction es arbitrary: w)
  case Nil
  then show ?case by simp
next
  case (Cons e es)
  from Cons.prems(1) obtain w' where v: "visit rnd h w e = Inr w'"
      and rest: "forEach (visit rnd h) w' es = Inr w1"
    by (auto split: sum.splits)
  from visit_mono [OF v Cons.prems(2)] Cons.IH [OF rest] show ?case by blast
qed

lemma updateContent_mono:
  assumes "updateContent rnd h q w = Inr w1" and "liteElementsInstancesMap w x = Some i"
  shows "liteElementsInstancesMap w1 x = Some i"
proof (cases q)
  case None
  with assms show ?thesis by (simp add: updateContent_def)
next
  case (Some es)
  with assms show ?thesis by (simp add: updateContent_forEach pass_mono)
qed

lemma pass_facts:
  assumes "forEach (visit rnd h) w es = Inr w1" and "refs_valid w"
  shows "refs_valid w1 \<and> liteElementsMap w1 = liteElementsMap w
       \<and> (\<forall>x. rendered rnd w x \<longrightarrow> rendered rnd w1 x)
       \<and> (\<forall>e\<in>set es. is_mount_point w e \<longrightarrow> rendered rnd w1 (eid e))"
  using assms
proof (induction es arbitrary: w)
  case Nil
  then show ?case by simp
next
  case (Cons e es)
  from Cons.prems(1) obtain w' where v: "visit rnd h w e = Inr w'"
      and rest: "forEach (visit rnd h) w' es = Inr w1"
    by (auto split: sum.splits)
  have wf': "refs_valid w'" using v Cons.prems(2) by (rule visit_refs_valid)
  note ih = Cons.IH [OF rest wf']
  have reg: "liteElementsMap w' = liteElementsMap w" using v by (rule visit_registry)
  have st: "\<And>x. rendered rnd w x \<Longrightarrow> rendered rnd w1 x"
    using ih visit_rendered_stable [OF v] by blast
  have self: "is_mount_point w e \<Longrightarrow> rendered rnd w1 (eid e)"
    using visit_rendered_self [OF v Cons.prems(2)] ih by blast
  have others: "\<And>e'. e' \<in> set es \<Longrightarrow> is_mount_point w e' \<Longrightarrow> rendered rnd w1 (eid e')"
    using ih is_mount_point_cong [OF reg] by blast
  show ?case using ih reg st self others by auto
qed

lemma second_pass:
  assumes "\<forall>e\<in>set es. is_mount_point w e \<longrightarrow> rendered rnd w (eid e)"
  shows "forEach (visit rnd h) (w\<lparr>commits := cs\<rparr>) es =
         Inr (w\<lparr>commits := cs @ rerender_existing rnd w es\<rparr>)"
  using assms
proof (induction es arbitrary: cs)
  case Nil
  then show ?case by simp
next
  case (Cons e es)
  let ?w = "w\<lparr>commits := cs\<rparr>"
  have mp: "is_mount_point ?w e = is_mount_point w e" by (simp add: is_mount_point_def)
  show ?case
  proof (cases "is_mount_point w e")
    case False
    then have "visit rnd h ?w e = Inr ?w" using mp by (simp add: visit_skip)
    with False Cons show ?thesis by simp
  next
    case True
    with Cons.prems obtain i t where i: "liteElementsInstancesMap w (eid e) = Some i"
        "rnd (instances w ! i) = Inr t"
      by (auto simp: rendered_def)
    have "visit rnd h ?w e = LiteElementHost rnd i (eid e) ?w"
      using True mp i(1) by (intro visit_known) simp_all
    also have "\<dots> = Inr (w\<lparr>commits := cs @ [(eid e, t)]\<rparr>)"
      using i(2) by (simp add: LiteElementHost_def)
    finally have v: "visit rnd h ?w e = Inr (w\<lparr>commits := cs @ [(eid e, t)]\<rparr>)" .
    have "forEach (visit rnd h) (w\<lparr>commits := cs @ [(eid e, t)]\<rparr>) es =
          Inr (w\<lparr>commits := (cs @ [(eid e, t)]) @ rerender_existing rnd w es\<rparr>)"
      using Cons.prems by (intro Cons.IH) simp
    with v True i show ?thesis by simp
  qed
qed

lemma forEach_skip:
  assumes "\<And>s x. x \<in> set xs \<Longrightarrow> \<not> P x \<Longrightarrow> f s x = Inr s"
  shows "forEach f s xs = forEach f s (filter P xs)"
  using assms
proof (induction xs arbitrary: s)
  case Nil
  then show ?case by simp
next
  case (Cons x xs)
  show ?case
  proof (cases "P x")
    case True
    with Cons show ?thesis by (auto split: sum.splits)
  next
    case False
    with Cons.prems have "f s x = Inr s" by simp
    with False Cons show ?thesis by simp
  qed
qed

lemma forEach_visit_unregistered:
  "forEach (visit rnd h) w es
   = forEach (visit rnd h) w (filter (\<lambda>x. liteElementsMap w (lite_attr x) \<noteq> None) es)"
proof (induction es arbitrary: w)
  case Nil
  then show ?case by simp
next
  case (Cons e es)
  show ?case
  proof (cases "liteElementsMap w (lite_attr e)")
    case None
    then have "visit rnd h w e = Inr w" by (simp add: visit_def Let_def)
    with None Cons show ?thesis by simp
  next
    case (Some K)
    show ?thesis
    proof (cases "visit rnd h w e")
      case (Inl err)
      with Some show ?thesis by simp
    next
      case (Inr w')
      from visit_registry [OF Inr] have "liteElementsMap w' = liteElementsMap w" .
      with Cons [of w'] Some Inr show ?thesis by simp
    qed
  qed
qed

section \<open>Claims about the registry\<close>

lemma associate_known:
  "liteElementsInstancesMap w x = Some r \<Longrightarrow> associate K h x w = Inr (r, w)"
  by (simp add: associate_def)

lemma associate_new:
  assumes "liteElementsInstancesMap w x = None" and "K h x (length (instances w)) = Inr c"
  shows "associate K h x w =
         Inr (length (instances w),
              w\<lparr>liteElementsInstancesMap := (liteElementsInstancesMap w)(x \<mapsto> length (instances w)),
                instances := instances w @ [c],
                controllers := controllers w @ [(h, length (instances w))]\<rparr>)"
  using assms by (simp add: associate_def new_instance_def Let_def)

lemma visit_mount_point:
  assumes "isHTMLElement e" and "lite_attr e \<noteq> []"
      and "liteElementsMap w (lite_attr e) = Some K"
      and "associate K h (eid e) w = Inr (r, w')"
  shows "visit rnd h w e = LiteElementHost rnd r (eid e) w'"
  using assms by (simp add: visit_def Let_def)

text \<open>
  Claim C2, as amended. Let \<open>e\<close> be an \<^verbatim>\<open>HTMLElement\<close> whose marker name is not empty
  and is registered with constructor \<open>K\<close>. When \<open>e\<close> has no instance yet, the pass calls
  \<open>K\<close> once with a fresh reference and, \<open>c\<close> being the instance it returns, exactly \<open>c\<close> is
  added to the instances and recorded for \<open>e\<close>; this is done before the render, which
  runs in the world that holds the association, whether it throws or not. Once \<open>e\<close> has
  an instance \<open>r\<close>, the lookup returns \<open>r\<close> and the world as it is, whatever is registered;
  every later pass keeps that association, and every later visit of \<open>e\<close> constructs
  nothing, leaves the associations as they are and commits at most the output of \<open>r\<close>.
\<close>

theorem mount_point_constructed_once_then_reused:
  assumes html: "isHTMLElement e" and name: "lite_attr e \<noteq> []"
      and reg: "liteElementsMap w (lite_attr e) = Some K"
  shows "(liteElementsInstancesMap w (eid e) = None \<longrightarrow>
          K h (eid e) (length (instances w)) = Inr c \<longrightarrow>
            (\<exists>w'. associate K h (eid e) w = Inr (length (instances w), w')
                \<and> instances w' = instances w @ [c]
                \<and> liteElementsInstancesMap w' =
                    (liteElementsInstancesMap w)(eid e \<mapsto> length (instances w))
                \<and> visit rnd h w e = LiteElementHost rnd (length (instances w)) (eid e) w'))
       \<and> (\<forall>r w1 K' h'.
             liteElementsInstancesMap w1 (eid e) = Some r \<longrightarrow>
               associate K' h' (eid e) w1 = Inr (r, w1))
       \<and> (\<forall>r w1 rnd' h' q w2.
             liteElementsInstancesMap w1 (eid e) = Some r \<longrightarrow>
             updateContent rnd' h' q w1 = Inr w2 \<longrightarrow>
               liteElementsInstancesMap w2 (eid e) = Some r)
       \<and> (\<forall>r w1 rnd' h' w2.
             liteElementsInstancesMap w1 (eid e) = Some r \<longrightarrow>
             visit rnd' h' w1 e = Inr w2 \<longrightarrow>
               instances w2 = instances w1 \<and> controllers w2 = controllers w1
               \<and> liteElementsInstancesMap w2 = liteElementsInstancesMap w1
               \<and> (commits w2 = commits w1
                    \<or> (\<exists>t'. rnd' (instances w1 ! r) = Inr t'
                          \<and> commits w2 = commits w1 @ [(eid e, t')])))"
proof (intro conjI allI impI)
  assume none: "liteElementsInstancesMap w (eid e) = None"
    and c: "K h (eid e) (length (instances w)) = Inr c"
  let ?w' = "w\<lparr>liteElementsInstancesMap :=
                  (liteElementsInstancesMap w)(eid e \<mapsto> length (instances w)),
                instances := instances w @ [c],
                controllers := controllers w @ [(h, length (instances w))]\<rparr>"
  have a: "associate K h (eid e) w = Inr (length (instances w), ?w')"
    using none c by (rule associate_new)
  have v: "visit rnd h w e = LiteElementHost rnd (length (instances w)) (eid e) ?w'"
    using html name reg a by (rule visit_mount_point)
  have "instances ?w' = instances w @ [c]"
    and "liteElementsInstancesMap ?w' =
           (liteElementsInstancesMap w)(eid e \<mapsto> length (instances w))"
    by simp_all
  with a v show "\<exists>w'. associate K h (eid e) w = Inr (length (instances w), w')
                \<and> instances w' = instances w @ [c]
                \<and> liteElementsInstancesMap w' =
                    (liteElementsInstancesMap w)(eid e \<mapsto> length (instances w))
                \<and> visit rnd h w e = LiteElementHost rnd (length (instances w)) (eid e) w'"
    by blast
next
  fix r K' h' and w1 :: world
  assume "liteElementsInstancesMap w1 (eid e) = Some r"
  then show "associate K' h' (eid e) w1 = Inr (r, w1)" by (rule associate_known)
next
  fix r w1 rnd' h' q w2
  assume "liteElementsInstancesMap w1 (eid e) = Some r"
    and "updateContent rnd' h' q w1 = Inr w2"
  then show "liteElementsInstancesMap w2 (eid e) = Some r"
    by (rule updateContent_mono [rotated])
next
  fix r w1 rnd' h' w2
  assume a: "liteElementsInstancesMap w1 (eid e) = Some r"
    and v: "visit rnd' h' w1 e = Inr w2"
  note f = visit_associated [OF a v]
  from f show "instances w2 = instances w1" by simp
  from f show "controllers w2 = controllers w1" by simp
  from f show "liteElementsInstancesMap w2 = liteElementsInstancesMap w1" by simp
  from f show "commits w2 = commits w1
                    \<or> (\<exists>t'. rnd' (instances w1 ! r) = Inr t'
                          \<and> commits w2 = commits w1 @ [(eid e, t')])" by simp
qed

text \<open>
  Claim C3. Start from a world whose associations denote constructed instances and let
  a pass over \<open>q\<close> return \<open>w1\<close>. A second pass over the same \<open>q\<close> returns as well; it
  changes nothing but the commits (no instance is constructed, no association added),
  and what it commits is, for each mount point in order, the output of the instance the
  first pass left for it, in the state the first pass left it in. Every mount point of
  \<open>q\<close> has such an instance.
\<close>

theorem second_pass_constructs_nothing:
  assumes wf: "refs_valid w" and p1: "updateContent rnd h q w = Inr w1"
  shows "updateContent rnd h q w1 =
           Inr (w1\<lparr>commits := commits w1 @
                     rerender_existing rnd w1 (case q of None \<Rightarrow> [] | Some es \<Rightarrow> es)\<rparr>)
       \<and> (\<forall>e\<in>set (case q of None \<Rightarrow> [] | Some es \<Rightarrow> es).
             is_mount_point w1 e \<longrightarrow> rendered rnd w1 (eid e))"
proof (cases q)
  case None
  then show ?thesis by (simp add: updateContent_def)
next
  case (Some es)
  with p1 have f: "forEach (visit rnd h) w es = Inr w1"
    by (simp add: updateContent_forEach)
  note facts = pass_facts [OF f wf]
  have all: "\<forall>e\<in>set es. is_mount_point w1 e \<longrightarrow> rendered rnd w1 (eid e)"
    using facts is_mount_point_cong [of w1 w] by auto
  have "forEach (visit rnd h) (w1\<lparr>commits := commits w1\<rparr>) es =
        Inr (w1\<lparr>commits := commits w1 @ rerender_existing rnd w1 es\<rparr>)"
    using all by (rule second_pass)
  then have "updateContent rnd h (Some es) w1 =
        Inr (w1\<lparr>commits := commits w1 @ rerender_existing rnd w1 es\<rparr>)"
    by (simp add: updateContent_forEach)
  with Some all show ?thesis by simp
qed

text \<open>
  Claim C4. The visit of an element whose marker name has no registered constructor
  returns the world unchanged (no instance, no association, no commit) and does not
  throw; a pass over a list that contains such an element does exactly what the pass
  over the list without it does.
\<close>

theorem unregistered_marker_is_inert:
  assumes "liteElementsMap w (lite_attr e) = None"
  shows "visit rnd h w e = Inr w
       \<and> updateContent rnd h (Some (es1 @ e # es2)) w
           = updateContent rnd h (Some (es1 @ es2)) w"
proof
  show "visit rnd h w e = Inr w" using assms by (simp add: visit_def Let_def)
  have "forEach (visit rnd h) w (es1 @ e # es2)
        = forEach (visit rnd h) w
            (filter (\<lambda>x. liteElementsMap w (lite_attr x) \<noteq> None) (es1 @ e # es2))"
    by (rule forEach_visit_unregistered)
  also have "\<dots> = forEach (visit rnd h) w
                     (filter (\<lambda>x. liteElementsMap w (lite_attr x) \<noteq> None) (es1 @ es2))"
    using assms by simp
  also have "\<dots> = forEach (visit rnd h) w (es1 @ es2)"
    by (rule forEach_visit_unregistered [symmetric])
  finally show "updateContent rnd h (Some (es1 @ e # es2)) w
                = updateContent rnd h (Some (es1 @ es2)) w"
    by (simp add: updateContent_forEach)
qed

text \<open>
  Claim C10. The visit of an element whose marker attribute is the empty string returns
  the world unchanged and does not throw, whatever is registered, the empty name
  included; a pass over a list that contains such an element does exactly what the pass
  over the list without it does.
\<close>

theorem empty_marker_is_skipped:
  assumes "lite_attr e = []"
  shows "visit rnd h w e = Inr w
       \<and> updateContent rnd h (Some (es1 @ e # es2)) w
           = updateContent rnd h (Some (es1 @ es2)) w"
proof
  show "visit rnd h w e = Inr w" using assms by (simp add: visit_def)
  have "forEach (visit rnd h) w (es1 @ e # es2)
        = forEach (visit rnd h) w (filter (\<lambda>x. lite_attr x \<noteq> []) (es1 @ e # es2))"
    by (rule forEach_skip) (simp add: visit_def)
  also have "\<dots> = forEach (visit rnd h) w (filter (\<lambda>x. lite_attr x \<noteq> []) (es1 @ es2))"
    using assms by simp
  also have "\<dots> = forEach (visit rnd h) w (es1 @ es2)"
    by (rule forEach_skip [symmetric]) (simp add: visit_def)
  finally show "updateContent rnd h (Some (es1 @ e # es2)) w
                = updateContent rnd h (Some (es1 @ es2)) w"
    by (simp add: updateContent_forEach)
qed

lemma lite_fields:
  "liteElementsInstancesMap (lite els w) = liteElementsInstancesMap w
   \<and> instances (lite els w) = instances w
   \<and> controllers (lite els w) = controllers w
   \<and> commits (lite els w) = commits w"
  unfolding lite_def by (induction els arbitrary: w) (auto simp: case_prod_beta)

lemma lite_snoc:
  "liteElementsMap (lite (els @ [(n, K)]) w) = (liteElementsMap (lite els w))(n \<mapsto> K)"
  by (simp add: lite_def)

text \<open>Registration and passes keep the references valid, from the empty world on.\<close>

lemma refs_valid_empty: "refs_valid empty_world"
  by (simp add: refs_valid_def empty_world_def)

lemma refs_valid_lite: "refs_valid w \<Longrightarrow> refs_valid (lite els w)"
  by (simp add: refs_valid_def lite_fields)

lemma refs_valid_updateContent:
  assumes "updateContent rnd h q w = Inr w1" and "refs_valid w"
  shows "refs_valid w1"
proof (cases q)
  case None
  with assms show ?thesis by (simp add: updateContent_def)
next
  case (Some es)
  with assms(1) have "forEach (visit rnd h) w es = Inr w1"
    by (simp add: updateContent_forEach)
  from pass_facts [OF this assms(2)] show ?thesis by simp
qed

text \<open>
  Claim C7. Registering \<open>n\<close> again replaces the earlier constructor: after \<open>K1\<close> then \<open>K2\<close>
  the registry is the one in which only \<open>K2\<close> was registered for \<open>n\<close>, and in any list of
  registrations the last entry for \<open>n\<close> is the one kept. Registration returns a world
  (it cannot throw) and touches nothing but the registry. A later visit of an element
  named \<open>n\<close> either constructs nothing or constructs with \<open>K2\<close>.
\<close>

theorem registration_last_writer_wins:
  "liteElementsMap (lite [(n, K2)] (lite [(n, K1)] w)) = (liteElementsMap w)(n \<mapsto> K2)
   \<and> liteElementsMap (lite (els @ [(n, K2)]) w) n = Some K2
   \<and> liteElementsInstancesMap (lite els w) = liteElementsInstancesMap w
   \<and> instances (lite els w) = instances w
   \<and> commits (lite els w) = commits w
   \<and> (\<forall>rnd h e w'. lite_attr e = n \<longrightarrow>
         visit rnd h (lite (els @ [(n, K2)]) w) e = Inr w' \<longrightarrow>
           instances w' = instances w
           \<or> (\<exists>c. K2 h (eid e) (length (instances w)) = Inr c
                  \<and> instances w' = instances w @ [c]))"
proof (intro conjI allI impI)
  show "liteElementsMap (lite [(n, K2)] (lite [(n, K1)] w)) = (liteElementsMap w)(n \<mapsto> K2)"
    by (simp add: lite_def)
  show "liteElementsMap (lite (els @ [(n, K2)]) w) n = Some K2"
    by (simp add: lite_snoc)
  show "liteElementsInstancesMap (lite els w) = liteElementsInstancesMap w"
    "instances (lite els w) = instances w" "commits (lite els w) = commits w"
    by (simp_all add: lite_fields)
next
  fix rnd h e w'
  let ?w = "lite (els @ [(n, K2)]) w"
  assume n: "lite_attr e = n" and v: "visit rnd h ?w e = Inr w'"
  have reg: "liteElementsMap ?w n = Some K2" by (simp add: lite_snoc)
  have inst: "instances ?w = instances w" by (simp add: lite_fields)
  from visit_cases [OF v] n reg inst
  show "instances w' = instances w
           \<or> (\<exists>c. K2 h (eid e) (length (instances w)) = Inr c
                  \<and> instances w' = instances w @ [c])"
    by auto
qed

section \<open>A field declared on the class of the controller\<close>

text \<open>
  Claim C5 fails on the code. With
  \<^verbatim>\<open>class Counter extends LiteElement { static properties = { count: {} }; count = 0; ... }\<close>
  the field \<^verbatim>\<open>count\<close> is declared reactive on the class of the controller. On the
  constructed controller the installation step returns with the flag set and nothing
  else changed: \<^verbatim>\<open>count\<close> is still a data property. The read that follows returns 0
  and creates no backing slot, and a write issues no re-render request.
\<close>

theorem declared_field_of_own_class_not_installed:
  "static_properties (proto direct_fresh) = [''count'']
   \<and> initReactiveProperties direct_fresh = Inr direct_flagged
   \<and> own direct_flagged ''count'' = Some (Data (JNum 0))
   \<and> js_get direct_flagged ''count'' = Inr (JNum 0, direct_flagged)
   \<and> own direct_flagged ''__count'' = None
   \<and> js_set direct_flagged ''count'' (JNum 1) no_requests
       = Inr (put direct_flagged ''count'' (JNum 1), no_requests)"
proof -
  have cls: "properties counter_direct = Some [''count'']"
    "methods counter_direct = [''render'', ''increment'']"
    by (simp_all add: counter_direct_def)
  have obj: "LiteElement_constructor [counter_direct] 7 3 0 =
     \<lparr>host = 7, element = 3, reactivePropertiesInitialized = False,
      own = [''constructor'' \<mapsto> Data (Bound (Ctor [counter_direct]) 0),
             ''render'' \<mapsto> Data (Bound (Method ''render'') 0),
             ''increment'' \<mapsto> Data (Bound (Method ''increment'') 0)],
      proto = [counter_direct], ref = 0\<rparr>"
    by (simp add: LiteElement_constructor_def cls getOwnPropertyNames_def plain_def put_def)
  have decl: "static_properties (proto direct_fresh) = [''count'']"
    by (simp add: direct_fresh_def obj cls)
  have inst: "initReactiveProperties direct_fresh = Inr direct_flagged"
    by (simp add: initReactiveProperties_def js_get_def direct_flagged_def direct_fresh_def
          obj put_def Let_def)
  have own: "own direct_flagged ''count'' = Some (Data (JNum 0))"
    "own direct_flagged ''__count'' = None"
    by (simp_all add: direct_flagged_def direct_fresh_def obj)
  from own have rd: "js_get direct_flagged ''count'' = Inr (JNum 0, direct_flagged)"
    by (simp add: js_get_def)
  from own have wr: "js_set direct_flagged ''count'' (JNum 1) no_requests
       = Inr (put direct_flagged ''count'' (JNum 1), no_requests)"
    by (simp add: js_set_def)
  from decl inst own rd wr show ?thesis by simp
qed

section \<open>The counter example, evaluated\<close>

lemma counter_statics:
  "properties counter_base = Some [''count'']"
  "properties counter_view = None"
  "methods counter_base = []"
  "methods counter_view = [''render'', ''increment'']"
  by (simp_all add: counter_view_def counter_base_def)

lemma counter_object:
  "LiteElement_constructor [counter_view, counter_base] h e r =
     \<lparr>host = h, element = e, reactivePropertiesInitialized = False,
      own = [''constructor'' \<mapsto> Data (Bound (Ctor [counter_view, counter_base]) r),
             ''render'' \<mapsto> Data (Bound (Method ''render'') r),
             ''increment'' \<mapsto> Data (Bound (Method ''increment'') r)],
      proto = [counter_view, counter_base], ref = r\<rparr>"
  by (simp add: LiteElement_constructor_def counter_statics
       getOwnPropertyNames_def plain_def put_def)

lemma counter_fresh_props:
  "own counter_fresh ''count'' = Some (Data (JNum 0))"
  "own counter_fresh ''__count'' = None"
  "plain counter_fresh ''constructor'' = Bound (Ctor [counter_view, counter_base]) 0"
  "host counter_fresh = 7"
  "proto counter_fresh = [counter_view, counter_base]"
  "\<not> reactivePropertiesInitialized counter_fresh"
  by (simp_all add: counter_fresh_def counter_object plain_def)

lemma counter_fresh_no_accessor:
  "own counter_fresh k \<noteq> Some (Accessor ik ov)"
  by (simp add: counter_fresh_def constructor_no_accessor)

text \<open>Installation on the constructed counter yields \<open>counter_installed\<close>.\<close>

lemma counter_installation:
  "initReactiveProperties counter_fresh = Inr counter_installed"
  by (simp add: initReactiveProperties_def js_get_def reactive_def counter_installed_def
       counter_fresh_def counter_object counter_statics internalKey_of_def Let_def put_def
       LiteElement_methods_def)

lemma counter_installed_props:
  "own counter_installed ''count'' = Some (Accessor ''__count'' (JNum 0))"
  "own counter_installed ''__count'' = None"
  "raw counter_installed ''__count'' = Inr Undefined"
  "host counter_installed = 7"
  "element counter_installed = 3"
  by (simp_all add: counter_installed_def counter_fresh_props raw_def counter_statics
        LiteElement_methods_def counter_fresh_def counter_object put_def)

lemma counter_read_props:
  "own counter_read ''count'' = Some (Accessor ''__count'' (JNum 0))"
  "raw counter_read ''__count'' = Inr (Obj (ReactiveProperty (host counter_read) (JNum 0)))"
  "host counter_read = 7"
  by (simp_all add: counter_read_def counter_installed_props)

text \<open>The first read of \<^verbatim>\<open>count\<close> on the installed counter yields \<open>counter_read\<close>.\<close>

lemma counter_first_read:
  "js_get counter_installed ''count'' = Inr (JNum 0, counter_read)"
  by (simp add: js_get_accessor [OF counter_installed_props(1)] getter_fresh
        counter_installed_props counter_read_def)

lemma registered_world_props:
  "liteElementsMap registered_world ''counter'' = Some counter_ctor"
  "liteElementsMap registered_world [] = Some counter_ctor"
  "liteElementsMap registered_world ''countre'' = None"
  "liteElementsInstancesMap registered_world = Map.empty"
  "instances registered_world = []"
  "controllers registered_world = []"
  "commits registered_world = []"
  by (simp_all add: registered_world_def lite_def empty_world_def)

lemma show_count_fresh: "show_count counter_fresh = Inr ''count=0''"
  by (simp add: show_count_def counter_fresh_props)

lemma counter_ctor_fresh: "counter_ctor 7 3 0 = Inr counter_fresh"
  by (simp add: counter_ctor_def counter_fresh_def)

lemma first_visit:
  "visit show_count 7 registered_world marker = Inr first_pass_world"
  by (simp add: visit_def associate_def new_instance_def LiteElementHost_def marker_def registered_world_props
        counter_ctor_fresh show_count_fresh first_pass_world_def)

lemma second_visit:
  "visit show_count 7 first_pass_world marker
     = Inr (first_pass_world\<lparr>commits := [(3, ''count=0''), (3, ''count=0'')]\<rparr>)"
  by (simp add: visit_def associate_def LiteElementHost_def marker_def registered_world_props
        first_pass_world_def show_count_fresh)

section \<open>The claims at the example\<close>


text \<open>
  Claim C1 as stated fails. On the installed counter, whose field \<^verbatim>\<open>count\<close> was never
  read, writing 5 issues no re-render request on host 7, and writing 5 a second time
  issues the first one: two writes, one request.
\<close>

theorem write_without_slot_requests_nothing:
  "own counter_installed ''count'' = Some (Accessor ''__count'' (JNum 0))
   \<and> js_set counter_installed ''count'' (JNum 5) no_requests
       = Inr (put counter_installed ''__count'' (Obj (ReactiveProperty 7 (JNum 5))), no_requests)
   \<and> no_requests 7 = 0
   \<and> js_set (put counter_installed ''__count'' (Obj (ReactiveProperty 7 (JNum 5)))) ''count''
         (JNum 5) no_requests
       = Inr (put (put counter_installed ''__count'' (Obj (ReactiveProperty 7 (JNum 5))))
                ''__count'' (Obj (ReactiveProperty 7 (JNum 5))),
              requestUpdate 7 no_requests)
   \<and> requestUpdate 7 no_requests 7 = 1"
  by (simp add: js_set_def setter_def counter_installed_props requestUpdate_def no_requests_def)

theorem write_requests_once_slot_exists_witness:
  "raw counter_read ''__count'' = Inr (Obj (ReactiveProperty (host counter_read) (JNum 0)))
   \<and> (\<exists>c1 c2. js_set counter_read ''count'' (JNum 0) no_requests
                  = Inr (c1, requestUpdate 7 no_requests)
          \<and> js_set c1 ''count'' (JNum 0) (requestUpdate 7 no_requests)
                  = Inr (c2, requestUpdate 7 (requestUpdate 7 no_requests))
          \<and> js_get c2 ''count'' = Inr (JNum 0, c2))
   \<and> raw counter_installed ''__count'' = Inr Undefined
   \<and> (\<exists>c1 c2. js_set counter_installed ''count'' (JNum 1) no_requests = Inr (c1, no_requests)
          \<and> js_set c1 ''count'' (JNum 2) no_requests = Inr (c2, requestUpdate 7 no_requests)
          \<and> js_get c2 ''count'' = Inr (JNum 2, c2))"
  using write_requests_once_slot_exists
          [of counter_read "''count''" "''__count''" "JNum 0" "JNum 0" "JNum 0" no_requests "JNum 0"]
        write_requests_once_slot_exists
          [of counter_installed "''count''" "''__count''" "JNum 0" "JNum 0" "JNum 1" no_requests "JNum 2"]
  by (simp add: counter_read_props counter_installed_props)

theorem read_before_write_returns_original_witness:
  "\<not> reactivePropertiesInitialized counter_fresh
   \<and> properties_keys (plain counter_fresh ''constructor'') = Inr [''count'']
   \<and> raw counter_fresh ''__count'' = Inr Undefined
   \<and> plain counter_fresh ''count'' = JNum 0
   \<and> (\<exists>c'. initReactiveProperties counter_fresh = Inr c'
          \<and> own c' ''count'' = Some (Accessor ''__count'' (JNum 0))
          \<and> raw c' ''__count'' = Inr Undefined
          \<and> js_get c' ''count''
               = Inr (JNum 0, put c' ''__count'' (Obj (ReactiveProperty 7 (JNum 0)))))"
proof -
  have k: "properties_keys (plain counter_fresh ''constructor'') = Inr [''count'']"
    by (simp add: counter_fresh_props counter_statics)
  have s: "raw counter_fresh (internalKey_of ''count'') = Inr Undefined"
    by (simp add: raw_def counter_fresh_props counter_statics internalKey_of_def
          LiteElement_methods_def)
  have p: "plain counter_fresh ''count'' = JNum 0"
    by (simp add: plain_def counter_fresh_props)
  have n: "\<forall>k ik ov. own counter_fresh k \<noteq> Some (Accessor ik ov)"
    by (simp add: counter_fresh_no_accessor)
  from read_before_write_returns_original
         [of counter_fresh "[''count'']" "''count''", OF _ n k _ _ _ s]
  show ?thesis using k s p
    by (simp add: counter_fresh_props internalKey_of_def)
qed

theorem install_twice_is_install_once_witness:
  "initReactiveProperties counter_fresh = Inr counter_installed
   \<and> initReactiveProperties counter_installed = Inr counter_installed"
  using install_twice_is_install_once [of counter_fresh]
  by (simp add: counter_installation)

theorem mount_point_constructed_once_then_reused_witness:
  "isHTMLElement marker \<and> lite_attr marker \<noteq> []
   \<and> liteElementsMap registered_world (lite_attr marker) = Some counter_ctor
   \<and> liteElementsInstancesMap registered_world (eid marker) = None
   \<and> counter_ctor 7 (eid marker) (length (instances registered_world)) = Inr counter_fresh
   \<and> (\<exists>w'. associate counter_ctor 7 (eid marker) registered_world = Inr (0, w')
          \<and> instances w' = [counter_fresh]
          \<and> liteElementsInstancesMap w' = [3 \<mapsto> 0]
          \<and> visit throwing_render 7 registered_world marker = LiteElementHost throwing_render 0 3 w'
          \<and> LiteElementHost throwing_render 0 3 w' = Inl (Thrown ''render failed''))
   \<and> liteElementsInstancesMap first_pass_world (eid marker) = Some 0
   \<and> associate handler_ctor 9 (eid marker) first_pass_world = Inr (0, first_pass_world)
   \<and> visit show_count 7 first_pass_world marker
        = Inr (first_pass_world\<lparr>commits := [(3, ''count=0''), (3, ''count=0'')]\<rparr>)
   \<and> instances (first_pass_world\<lparr>commits := [(3, ''count=0''), (3, ''count=0'')]\<rparr>)
        = instances first_pass_world"
proof -
  have h1: "isHTMLElement marker" and h2: "lite_attr marker \<noteq> []"
    and h3: "liteElementsMap registered_world (lite_attr marker) = Some counter_ctor"
    and h4: "liteElementsInstancesMap registered_world (eid marker) = None"
    by (simp_all add: marker_def registered_world_props)
  have a: "liteElementsInstancesMap first_pass_world (eid marker) = Some 0"
    by (simp add: first_pass_world_def marker_def)
  have c: "counter_ctor 7 (eid marker) (length (instances registered_world)) = Inr counter_fresh"
    by (simp add: marker_def registered_world_props counter_ctor_fresh)
  note t = mount_point_constructed_once_then_reused
             [of marker registered_world counter_ctor 7 counter_fresh throwing_render, OF h1 h2 h3]
  from t [THEN conjunct1, rule_format, OF h4 c] obtain w' where
    w': "associate counter_ctor 7 (eid marker) registered_world
           = Inr (length (instances registered_world), w')"
        "instances w' = instances registered_world @ [counter_fresh]"
        "liteElementsInstancesMap w' =
           (liteElementsInstancesMap registered_world)
             (eid marker \<mapsto> length (instances registered_world))"
        "visit throwing_render 7 registered_world marker
           = LiteElementHost throwing_render (length (instances registered_world)) (eid marker) w'"
    by blast
  have first: "\<exists>w'. associate counter_ctor 7 (eid marker) registered_world = Inr (0, w')
          \<and> instances w' = [counter_fresh]
          \<and> liteElementsInstancesMap w' = [3 \<mapsto> 0]
          \<and> visit throwing_render 7 registered_world marker = LiteElementHost throwing_render 0 3 w'
          \<and> LiteElementHost throwing_render 0 3 w' = Inl (Thrown ''render failed'')"
    using w' by (intro exI [of _ w'])
      (simp add: registered_world_props marker_def LiteElementHost_def throwing_render_def)
  note known = t [THEN conjunct2, THEN conjunct1, rule_format, OF a, of handler_ctor 9]
  note reuse = t [THEN conjunct2, THEN conjunct2, THEN conjunct2, rule_format, OF a second_visit]
  from reuse
  have "instances (first_pass_world\<lparr>commits := [(3, ''count=0''), (3, ''count=0'')]\<rparr>)
        = instances first_pass_world"
    by (rule conjunct1)
  with h1 h2 h3 h4 c first a known second_visit show ?thesis by blast
qed

text \<open>
  Claim C2 as stated fails. The name \<^verbatim>\<open>counter\<close> and the empty name are both
  registered; an element that is no \<^verbatim>\<open>HTMLElement\<close> and carries \<^verbatim>\<open>lite="counter"\<close>,
  and an \<^verbatim>\<open>HTMLElement\<close> that carries \<^verbatim>\<open>lite=""\<close>, are visited, and neither gets an
  instance or an association: the world is returned as it was.
\<close>

theorem non_html_or_unnamed_marker_gets_no_instance:
  "liteElementsMap registered_world (lite_attr svg_marker) = Some counter_ctor
   \<and> liteElementsInstancesMap registered_world (eid svg_marker) = None
   \<and> visit show_count 7 registered_world svg_marker = Inr registered_world
   \<and> liteElementsMap registered_world (lite_attr unnamed_marker) = Some counter_ctor
   \<and> liteElementsInstancesMap registered_world (eid unnamed_marker) = None
   \<and> visit show_count 7 registered_world unnamed_marker = Inr registered_world
   \<and> instances registered_world = []"
  by (simp add: visit_def svg_marker_def unnamed_marker_def registered_world_props)

theorem second_pass_constructs_nothing_witness:
  "refs_valid registered_world
   \<and> updateContent show_count 7 (Some [marker, svg_marker, unnamed_marker, typo_marker])
        registered_world = Inr first_pass_world
   \<and> updateContent show_count 7 (Some [marker, svg_marker, unnamed_marker, typo_marker])
        first_pass_world
        = Inr (first_pass_world\<lparr>commits := [(3, ''count=0''), (3, ''count=0'')]\<rparr>)
   \<and> rendered show_count first_pass_world (eid marker)"
proof -
  have wf: "refs_valid registered_world"
    by (simp add: refs_valid_def registered_world_props)
  have reg: "liteElementsMap first_pass_world = liteElementsMap registered_world"
    by (simp add: first_pass_world_def)
  have p1: "updateContent show_count 7 (Some [marker, svg_marker, unnamed_marker, typo_marker])
        registered_world = Inr first_pass_world"
    by (simp add: updateContent_def first_visit)
       (simp add: visit_def svg_marker_def unnamed_marker_def typo_marker_def reg
          registered_world_props)
  have rr: "rerender_existing show_count first_pass_world
              [marker, svg_marker, unnamed_marker, typo_marker] = [(3, ''count=0'')]"
    by (simp add: is_mount_point_def reg registered_world_props marker_def svg_marker_def
          unnamed_marker_def typo_marker_def)
       (simp add: first_pass_world_def show_count_fresh)
  have mp: "is_mount_point first_pass_world marker"
    by (simp add: is_mount_point_def reg registered_world_props marker_def)
  from second_pass_constructs_nothing [OF wf p1] rr mp
  show ?thesis using wf p1 by (simp add: first_pass_world_def)
qed

theorem unregistered_marker_is_inert_witness:
  "liteElementsMap registered_world (lite_attr typo_marker) = None
   \<and> visit show_count 7 registered_world typo_marker = Inr registered_world
   \<and> updateContent show_count 7 (Some ([marker] @ typo_marker # [svg_marker])) registered_world
       = updateContent show_count 7 (Some ([marker] @ [svg_marker])) registered_world"
  using unregistered_marker_is_inert
          [of registered_world typo_marker show_count 7 "[marker]" "[svg_marker]"]
  by (simp add: typo_marker_def registered_world_props)

theorem empty_marker_is_skipped_witness:
  "lite_attr unnamed_marker = []
   \<and> liteElementsMap registered_world [] = Some counter_ctor
   \<and> visit show_count 7 registered_world unnamed_marker = Inr registered_world
   \<and> updateContent show_count 7 (Some ([marker] @ unnamed_marker # [svg_marker])) registered_world
       = updateContent show_count 7 (Some ([marker] @ [svg_marker])) registered_world"
  using empty_marker_is_skipped
          [of unnamed_marker show_count 7 registered_world "[marker]" "[svg_marker]"]
  by (simp add: unnamed_marker_def registered_world_props)

theorem registration_last_writer_wins_witness:
  "liteElementsMap registered_world ''counter'' = Some counter_ctor
   \<and> lite_attr marker = ''counter''
   \<and> visit show_count 7 registered_world marker = Inr first_pass_world
   \<and> counter_ctor 7 (eid marker) (length (instances empty_world)) = Inr counter_fresh
   \<and> instances first_pass_world = instances empty_world @ [counter_fresh]"
proof -
  have rw: "registered_world
            = lite ([(''counter'', handler_ctor), ([], counter_ctor)] @ [(''counter'', counter_ctor)])
                empty_world"
    by (simp add: registered_world_def)
  have c: "counter_ctor 7 (eid marker) (length (instances empty_world)) = Inr counter_fresh"
    by (simp add: counter_ctor_fresh marker_def empty_world_def)
  have ne: "instances first_pass_world \<noteq> instances empty_world"
    by (simp add: first_pass_world_def empty_world_def)
  have lm: "lite_attr marker = ''counter''" by (simp add: marker_def)
  note t = registration_last_writer_wins
         [of "''counter''" counter_ctor handler_ctor empty_world
             "[(''counter'', handler_ctor), ([], counter_ctor)]"]
  note used = t [THEN conjunct2, THEN conjunct2, THEN conjunct2, THEN conjunct2, THEN conjunct2,
                 rule_format, OF lm first_visit [unfolded rw]]
  from used ne c have "instances first_pass_world = instances empty_world @ [counter_fresh]"
    by auto
  with c lm first_visit show ?thesis by (simp add: registered_world_props)
qed

theorem constructor_binds_own_methods_witness:
  "''render'' \<in> set (getOwnPropertyNames [handler_view, handler_base])
   \<and> ''constructor'' \<in> set (getOwnPropertyNames [handler_view, handler_base])
   \<and> call_this (plain (LiteElement_constructor [handler_view, handler_base] 7 3 0) ''render'')
        None = Some 0
   \<and> call_this (plain (LiteElement_constructor [handler_view, handler_base] 7 3 0) ''constructor'')
        (Some 9) = Some 0"
proof -
  have m: "''render'' \<in> set (getOwnPropertyNames [handler_view, handler_base])"
    and k: "''constructor'' \<in> set (getOwnPropertyNames [handler_view, handler_base])"
    by (simp_all add: getOwnPropertyNames_def handler_view_def)
  from constructor_binds_own_methods [OF m, of 7 3 0 None]
       constructor_binds_own_methods [OF k, of 7 3 0 "Some 9"] m k
  show ?thesis by simp
qed

end
